theory Spec2Isabelle
  imports Main "HOL-Library.Word"
begin

section \<open>SI\_app.py: the solar-cell tester, as a state-passing model\<close>

text \<open>
  The program is a set of event handlers over module-level globals. The globals are a
  record; every call on a widget, on the instrument session, on the plot or on the output
  file is appended to a log, in program order. An exception is a value: a handler returns
  \<open>Done s\<close> or \<open>Raised e s\<close>, where \<open>s\<close> is the state the globals and the log were in
  when the exception left the handler (assignments made before the raise are kept, as in
  Python).
\<close>

subsection \<open>Values and the library calls the program makes\<close>

text \<open>A Python float (and an element of a numpy float64 array) is an IEEE binary64
  value, kept as its 64 bits.\<close>

type_synonym pyfloat = "64 word"

datatype error = ValueError | IndexError | AttributeError | VisaIOError | OSError

text \<open>
  The interpreter and library operations the program calls are not part of the
  repository. They are taken as parameters:
  \<^item> \<open>float_of t\<close> is \<open>float(t)\<close>, \<open>None\<close> when it raises ValueError;
  \<^item> \<open>fmt_f p x\<close> is \<open>"%0.<p>f" % x\<close> and \<open>fmt_g p x\<close> is \<open>"%0.<p>g" % x\<close>;
  \<^item> \<open>fmul x y\<close> is the float64 product;
  \<^item> \<open>list_resources\<close> is what \<open>rm.list_resources()\<close> returned, and
    \<open>open_resource r\<close> tells whether \<open>rm.open_resource(r)\<close> returns a session
    (otherwise it raises);
  \<^item> \<open>open_w f\<close> tells whether \<open>open(f, 'w')\<close> returns a file (otherwise it raises).
\<close>

record builtins =
  float_of :: "string \<Rightarrow> pyfloat option"
  fmt_f :: "nat \<Rightarrow> pyfloat \<Rightarrow> string"
  fmt_g :: "nat \<Rightarrow> pyfloat \<Rightarrow> string"
  fmul :: "pyfloat \<Rightarrow> pyfloat \<Rightarrow> pyfloat"
  list_resources :: "string list"
  open_resource :: "string \<Rightarrow> bool"
  open_w :: "string \<Rightarrow> bool"

text \<open>\<open>"%d" % n\<close> for a non-negative integer.\<close>

fun digits_of :: "nat \<Rightarrow> nat \<Rightarrow> string" where
  "digits_of 0 n = []"
| "digits_of (Suc k) n =
     (if n < 10 then [char_of (48 + n)]
      else digits_of k (n div 10) @ [char_of (48 + n mod 10)])"

definition fmt_d :: "nat \<Rightarrow> string" where
  "fmt_d n = digits_of (Suc n) n"

text \<open>\<open>s.split(',')\<close>: the fields between the separators; never the empty list.\<close>

fun split_on :: "char \<Rightarrow> string \<Rightarrow> string list" where
  "split_on c [] = [[]]"
| "split_on c (x # xs) =
     (if x = c then [] # split_on c xs
      else (case split_on c xs of [] \<Rightarrow> [[x]] | w # ws \<Rightarrow> (x # w) # ws))"

text \<open>\<open>range(a, b, st)\<close> for a positive step.\<close>

definition range_step :: "nat \<Rightarrow> nat \<Rightarrow> nat \<Rightarrow> nat list" where
  "range_step a b st = map (\<lambda>k. a + k * st) [0..<(b - a + st - 1) div st]"

text \<open>\<open>float(data[j])\<close>: the index is checked first, then the conversion.\<close>

definition float_at :: "builtins \<Rightarrow> string list \<Rightarrow> nat \<Rightarrow> error + pyfloat" where
  "float_at env data j =
     (if j < length data
      then (case float_of env (data ! j) of None \<Rightarrow> Inl ValueError | Some x \<Rightarrow> Inr x)
      else Inl IndexError)"

text \<open>\<open>[float(data[j]) for j in js]\<close>: left to right, stopping at the first exception.\<close>

fun floats_at :: "builtins \<Rightarrow> string list \<Rightarrow> nat list \<Rightarrow> error + pyfloat list" where
  "floats_at env data [] = Inr []"
| "floats_at env data (j # js) =
     (case float_at env data j of
        Inl e \<Rightarrow> Inl e
      | Inr x \<Rightarrow> (case floats_at env data js of Inl e \<Rightarrow> Inl e | Inr xs \<Rightarrow> Inr (x # xs)))"

subsection \<open>Globals, widgets and the log of effects\<close>

datatype widget =
    SelectMenu | PortMenu
  | StartVlabel | StartVentry | StopVlabel | StopVentry
  | AreaLabel | AreaEntry | FluxLabel | FluxEntry
  | StartButton | StopButton | SaveButton
  | FfOutput | EfOutput

datatype event =
    SetDisabled widget bool
  | SetText widget string
  | OpenResource string
  | SetTimeout nat
  | SMWrite string
  | SMQuery string
  | AxesCla
  | AxesPlot "pyfloat list" "pyfloat list" string
  | SetXLabel string
  | SetYLabel string
  | Draw
  | FileOpen string
  | FileWrite string
  | FileClose

record state =
  MaxN :: nat
  minV :: pyfloat
  maxV :: pyfloat
  N :: nat
  SM :: "string option"
  meterSelected :: bool
  Imax :: pyfloat
  Imax_index :: int
  IVmax :: pyfloat
  IVmax_index :: int
  zero_index :: int
  Vmax :: pyfloat
  fillFactor :: pyfloat
  efficiency :: pyfloat
  area :: pyfloat
  flux :: pyfloat
  current :: "pyfloat list"
  voltage :: "pyfloat list"
  log :: "event list"

datatype outcome = Done state | Raised error state

fun state_of :: "outcome \<Rightarrow> state" where
  "state_of (Done s) = s"
| "state_of (Raised e s) = s"

fun and_then :: "outcome \<Rightarrow> (state \<Rightarrow> outcome) \<Rightarrow> outcome" where
  "and_then (Done s) f = f s"
| "and_then (Raised e s) f = Raised e s"

definition emit :: "event \<Rightarrow> state \<Rightarrow> state" where
  "emit ev s = s\<lparr>log := log s @ [ev]\<rparr>"

definition emits :: "event list \<Rightarrow> state \<Rightarrow> state" where
  "emits evs s = s\<lparr>log := log s @ evs\<rparr>"

text \<open>\<open>SM.write(cmd)\<close>: \<open>SM\<close> is \<open>None\<close> until an instrument has been selected.\<close>

definition sm_write :: "string \<Rightarrow> state \<Rightarrow> outcome" where
  "sm_write cmd s =
     (case SM s of None \<Rightarrow> Raised AttributeError s | Some r \<Rightarrow> Done (emit (SMWrite cmd) s))"

text \<open>The float literals of the source, as binary64 bit patterns.\<close>

definition f_0_0 :: pyfloat where "f_0_0 = 0x0000000000000000"
definition f_2_0 :: pyfloat where "f_2_0 = 0x4000000000000000"
definition f_2_76 :: pyfloat where "f_2_76 = 0x4006147AE147AE14"
definition f_100_0 :: pyfloat where "f_100_0 = 0x4059000000000000"
definition f_1000 :: pyfloat where "f_1000 = 0x408F400000000000"

subsection \<open>Non-interface functions\<close>

text \<open>
  \<open>processData\<close> (lines 186--224). \<open>voltage\<close> is assigned before the comprehension for
  \<open>current\<close> is evaluated. The local \<open>zero = 0.00001\<close> is never read. Between the parse
  and the plot the source has only the comment ``set up analysis here, once Monica
  figures out what should be analyzed and how!''.
\<close>

definition processData :: "builtins \<Rightarrow> string \<Rightarrow> state \<Rightarrow> outcome" where
  "processData env dataString s =
     (let data = split_on CHR '','' dataString in
      case floats_at env data (range_step 0 (2 * N s) 2) of
        Inl e \<Rightarrow> Raised e s
      | Inr vs \<Rightarrow>
          (let s1 = s\<lparr>voltage := vs\<rparr> in
           case floats_at env data (range_step 1 (2 * N s) 2) of
             Inl e \<Rightarrow> Raised e s1
           | Inr cs \<Rightarrow>
               Done (emits
                 [AxesCla,
                  AxesPlot vs (map (\<lambda>c. fmul env c f_1000) cs) ''r.'',
                  SetXLabel ''Voltage (V)'',
                  SetYLabel ''Current (mA)'',
                  Draw,
                  SetDisabled SaveButton False]
                 (s1\<lparr>current := cs\<rparr>))))"

text \<open>\<open>updateOutput\<close> (lines 236--238).\<close>

definition updateOutput :: "builtins \<Rightarrow> state \<Rightarrow> state" where
  "updateOutput env s =
     emits
       [SetText FfOutput (''Fill Factor: '' @ fmt_f env 2 (fillFactor s) @ ''  ''),
        SetText EfOutput (''Efficiency: '' @ fmt_f env 2 (efficiency s) @ '' '')]
       s"

text \<open>\<open>minVset\<close> and \<open>maxVset\<close> (lines 226--234); \<open>txt\<close> is the entry's text.\<close>

definition minVset :: "builtins \<Rightarrow> string \<Rightarrow> state \<Rightarrow> outcome" where
  "minVset env txt s =
     (case float_of env txt of
        None \<Rightarrow> Raised ValueError s
      | Some x \<Rightarrow>
          (let s1 = s\<lparr>minV := x\<rparr> in
           sm_write (''source:volt:start '' @ fmt_f env 2 (minV s1)) s1))"

definition maxVset :: "builtins \<Rightarrow> string \<Rightarrow> state \<Rightarrow> outcome" where
  "maxVset env txt s =
     (case float_of env txt of
        None \<Rightarrow> Raised ValueError s
      | Some x \<Rightarrow>
          (let s1 = s\<lparr>maxV := x\<rparr> in
           sm_write (''source:volt:stop '' @ fmt_f env 2 (maxV s1)) s1))"

subsection \<open>Event handlers\<close>

text \<open>
  \<open>start_clicked\<close> (lines 96--108). \<open>reply\<close> is what \<open>SM.query("read?")\<close> does:
  \<open>Some d\<close> when it returns the string \<open>d\<close>, \<open>None\<close> when it raises (a timeout).
\<close>

definition start_clicked :: "builtins \<Rightarrow> string option \<Rightarrow> state \<Rightarrow> outcome" where
  "start_clicked env reply s =
     (let s1 = emits [SetDisabled StartButton True, SetDisabled StopButton False] s in
      and_then (sm_write ''output on'' s1) (\<lambda>s2.
        (let s3 = emit (SMQuery ''read?'') s2 in
         case reply of
           None \<Rightarrow> Raised VisaIOError s3
         | Some datastring \<Rightarrow>
             and_then (sm_write ''output off'' s3) (\<lambda>s4.
               and_then (processData env datastring s4) (\<lambda>s5.
                 Done (emit (SetDisabled StartButton False) s5))))))"

text \<open>\<open>stop_clicked\<close> (lines 110--117).\<close>

definition stop_clicked :: "state \<Rightarrow> outcome" where
  "stop_clicked s =
     sm_write ''output off''
       (emits [SetDisabled StopButton True, SetDisabled StartButton False] s)"

text \<open>
  \<open>save_clicked\<close> (lines 119--139). \<open>filename\<close> is what the file dialog returned.
  \<open>voltage[j]\<close> and \<open>current[j]\<close> raise IndexError past the end of the array.
\<close>

definition tab :: string where "tab = [CHR 0x09]"
definition nl :: string where "nl = [CHR 0x0A]"

definition data_row :: "builtins \<Rightarrow> state \<Rightarrow> nat \<Rightarrow> error + string" where
  "data_row env s j =
     (if j < length (voltage s)
      then (if j < length (current s)
            then Inr (fmt_f env 5 (voltage s ! j) @ tab @ fmt_g env 5 (current s ! j) @ nl)
            else Inl IndexError)
      else Inl IndexError)"

fun write_rows :: "builtins \<Rightarrow> nat list \<Rightarrow> state \<Rightarrow> outcome" where
  "write_rows env [] s = Done s"
| "write_rows env (j # js) s =
     (case data_row env s j of
        Inl e \<Rightarrow> Raised e s
      | Inr row \<Rightarrow> write_rows env js (emit (FileWrite row) s))"

definition file_header :: "builtins \<Rightarrow> state \<Rightarrow> string list" where
  "file_header env s =
     [''# Area = '' @ fmt_f env 5 (area s) @ '' (units?)'' @ nl,
      ''# Flux = '' @ fmt_f env 5 (flux s) @ '' (units?)'' @ nl,
      ''# Max Current = '' @ fmt_f env 5 (Imax s) @ '' mA'' @ nl,
      ''# Max Voltage = '' @ fmt_f env 5 (Vmax s) @ '' V'' @ nl,
      ''# Fill Factor = '' @ fmt_f env 3 (fillFactor s) @ '' '' @ nl,
      ''# Efficiency = '' @ fmt_f env 3 (efficiency s) @ nl,
      ''# Voltage'' @ tab @ ''Current'' @ nl]"

definition save_clicked :: "builtins \<Rightarrow> string \<Rightarrow> state \<Rightarrow> outcome" where
  "save_clicked env filename s =
     (if \<not> open_w env filename then Raised OSError s
      else
        and_then
          (write_rows env [0..<N s]
             (emits (FileOpen filename # map FileWrite (file_header env s)) s))
          (\<lambda>s1. Done (emits
             [FileClose, SetText SaveButton ''Data Saved'', SetDisabled SaveButton True] s1)))"

text \<open>
  \<open>selectionChange\<close> (lines 141--163); \<open>sel\<close> is \<open>selectMenu.currentText()\<close>. After
  \<open>SM\<close> is assigned every \<open>SM.write\<close> has a session to write to. \<open>meterSelected = True\<close>
  has no \<open>global\<close> declaration, so it binds a local: the global keeps its value and the
  \<open>if\<close> below it always takes its branch.
\<close>

definition selectionChange :: "builtins \<Rightarrow> string \<Rightarrow> state \<Rightarrow> outcome" where
  "selectionChange env sel s =
     (if \<not> open_resource env sel then Raised VisaIOError s
      else Done (emits
        [OpenResource sel,
         SetTimeout 30000,
         SMWrite ''syst:beep 440'',
         SMWrite ''route:term front'',
         SMWrite ''source:function:mode volt'',
         SMWrite (''source:volt:start '' @ fmt_f env 2 (minV s)),
         SMWrite (''source:volt:stop '' @ fmt_f env 2 (maxV s)),
         SMWrite ''source:volt:mode sweep'',
         SMWrite ''format:elements voltage, current'',
         SMWrite (''source:sweep:points '' @ fmt_d (N s)),
         SMWrite (''trig:count '' @ fmt_d (N s)),
         SetDisabled PortMenu False,
         SetDisabled StartButton False,
         SetDisabled StartVentry False,
         SetDisabled StopVentry False,
         SetDisabled FluxEntry False,
         SetDisabled AreaEntry False]
        (s\<lparr>SM := Some sel\<rparr>)))"

text \<open>\<open>areaSet\<close>, \<open>fluxSet\<close>, \<open>portSet\<close> (lines 165--178).\<close>

definition areaSet :: "builtins \<Rightarrow> string \<Rightarrow> state \<Rightarrow> outcome" where
  "areaSet env txt s =
     (case float_of env txt of None \<Rightarrow> Raised ValueError s | Some x \<Rightarrow> Done (s\<lparr>area := x\<rparr>))"

definition fluxSet :: "builtins \<Rightarrow> string \<Rightarrow> state \<Rightarrow> outcome" where
  "fluxSet env txt s =
     (case float_of env txt of None \<Rightarrow> Raised ValueError s | Some x \<Rightarrow> Done (s\<lparr>flux := x\<rparr>))"

definition portSet :: "string \<Rightarrow> state \<Rightarrow> outcome" where
  "portSet port s = sm_write (''route:term '' @ port) s"

subsection \<open>Main program\<close>

text \<open>
  The module-level assignments (lines 22--24, 76--88, 246--247) and, of the widget set-up
  (lines 249--409), the \<open>setText\<close> and \<open>setDisabled\<close> calls, in source order; the
  \<open>setText\<close> calls on the entries precede the \<open>connect\<close> of their handlers. Layout,
  validators and signal connections leave no trace in the globals.
\<close>

definition globals0 :: state where
  "globals0 =
     \<lparr>MaxN = 1000, minV = f_0_0, maxV = f_2_0, N = 100, SM = None, meterSelected = False,
      Imax = f_0_0, Imax_index = 0, IVmax = f_0_0, IVmax_index = 0, zero_index = 0,
      Vmax = f_0_0, fillFactor = f_0_0, efficiency = f_0_0, area = f_2_76, flux = f_100_0,
      current = replicate 100 f_0_0, voltage = replicate 100 f_0_0, log = []\<rparr>"

definition main_program :: "builtins \<Rightarrow> state" where
  "main_program env =
     updateOutput env (emits
       [SetDisabled PortMenu True,
        SetText StartVlabel ''Start Voltage (V)'',
        SetText StartVentry (fmt_f env 2 (minV globals0)),
        SetDisabled StartVentry True,
        SetText StopVlabel ''Stop Voltage (V)'',
        SetText StopVentry (fmt_f env 2 (maxV globals0)),
        SetDisabled StopVentry True,
        SetText AreaLabel ''Sample Area (cm^2)'',
        SetText AreaEntry (fmt_f env 5 (area globals0)),
        SetDisabled AreaEntry True,
        SetText FluxLabel ''Flux (mW/cm^2)'',
        SetText FluxEntry (fmt_f env 5 (flux globals0)),
        SetDisabled FluxEntry True,
        SetText StartButton ''Start'',
        SetDisabled StartButton True,
        SetText StopButton ''Stop'',
        SetDisabled StopButton True,
        SetText SaveButton ''Save Data'',
        SetDisabled SaveButton True]
       globals0)"

text \<open>
  After the main program the event loop calls one handler per user action. An exception
  that leaves a handler does not undo what the handler did before it; the next action
  starts from that state.
\<close>

datatype action =
    Select string
  | PortChoice string
  | StartClick "string option"
  | StopClick
  | SaveClick string
  | AreaEdit string
  | FluxEdit string
  | MinVEdit string
  | MaxVEdit string

fun handle :: "builtins \<Rightarrow> action \<Rightarrow> state \<Rightarrow> outcome" where
  "handle env (Select sel) s = selectionChange env sel s"
| "handle env (PortChoice port) s = portSet port s"
| "handle env (StartClick reply) s = start_clicked env reply s"
| "handle env StopClick s = stop_clicked s"
| "handle env (SaveClick filename) s = save_clicked env filename s"
| "handle env (AreaEdit txt) s = areaSet env txt s"
| "handle env (FluxEdit txt) s = fluxSet env txt s"
| "handle env (MinVEdit txt) s = minVset env txt s"
| "handle env (MaxVEdit txt) s = maxVset env txt s"

fun run :: "builtins \<Rightarrow> action list \<Rightarrow> state \<Rightarrow> state" where
  "run env [] s = s"
| "run env (a # as) s = run env as (state_of (handle env a s))"

subsection \<open>Vocabulary of the properties\<close>

text \<open>A field is numeric when \<open>float()\<close> accepts it.\<close>

definition numeric :: "builtins \<Rightarrow> string \<Rightarrow> bool" where
  "numeric env t = (float_of env t \<noteq> None)"

fun raised :: "outcome \<Rightarrow> bool" where
  "raised (Done s) = False"
| "raised (Raised e s) = True"

text \<open>The commands sent to the instrument, the strings written to the output file and
  the texts set on a widget, each in log order.\<close>

fun sent :: "event list \<Rightarrow> string list" where
  "sent [] = []"
| "sent (SMWrite c # evs) = c # sent evs"
| "sent (SMQuery c # evs) = c # sent evs"
| "sent (ev # evs) = sent evs"

fun file_writes :: "event list \<Rightarrow> string list" where
  "file_writes [] = []"
| "file_writes (FileWrite t # evs) = t # file_writes evs"
| "file_writes (ev # evs) = file_writes evs"

fun texts_on :: "widget \<Rightarrow> event list \<Rightarrow> string list" where
  "texts_on w [] = []"
| "texts_on w (SetText w' t # evs) = (if w' = w then t # texts_on w evs else texts_on w evs)"
| "texts_on w (ev # evs) = texts_on w evs"

fun toggles_of :: "widget \<Rightarrow> event list \<Rightarrow> bool list" where
  "toggles_of w [] = []"
| "toggles_of w (SetDisabled w' b # evs) =
     (if w' = w then b # toggles_of w evs else toggles_of w evs)"
| "toggles_of w (ev # evs) = toggles_of w evs"

text \<open>Putting two sequences back into the instrument's order, and a list of tokens back
  into one comma-separated string.\<close>

fun interleave :: "'a list \<Rightarrow> 'a list \<Rightarrow> 'a list" where
  "interleave (x # xs) (y # ys) = x # y # interleave xs ys"
| "interleave xs ys = []"

fun join_comma :: "string list \<Rightarrow> string" where
  "join_comma [] = []"
| "join_comma [t] = t"
| "join_comma (t # ts) = t @ '','' @ join_comma ts"

subsection \<open>An instance of the library calls, for the examples\<close>

text \<open>
  The examples run the model on concrete replies. They need the library calls only on a
  handful of arguments, so the instance below tabulates what CPython returns on exactly
  those: \<open>float('0.010')\<close> is the double \<open>0x3F847AE147AE147B\<close>, \<open>'%0.5f' % 2.76\<close> is
  \<open>'2.76000'\<close>, \<open>'%0.5g' % 0.006\<close> is \<open>'0.006'\<close>, \<open>repr(0.01)\<close> is \<open>'0.01'\<close>, and
  so on. Off the tables \<open>float_tab\<close> answers \<open>None\<close> (the examples use \<open>x\<close> as a
  field that is not a number), the formats answer the empty string and the product
  answers zero; no example reads them there. One resource can be opened, and every file
  name but the empty one (what the dialog returns on Cancel).
\<close>

definition f_0_5 :: pyfloat where "f_0_5 = 0x3FE0000000000000"
definition f_1_0 :: pyfloat where "f_1_0 = 0x3FF0000000000000"
definition f_0_01 :: pyfloat where "f_0_01 = 0x3F847AE147AE147B"
definition f_0_006 :: pyfloat where "f_0_006 = 0x3F789374BC6A7EFA"
definition f_0_003 :: pyfloat where "f_0_003 = 0x3F689374BC6A7EFA"
definition f_0_3 :: pyfloat where "f_0_3 = 0x3FD3333333333333"
definition f_0_0000828 :: pyfloat where "f_0_0000828 = 0x3F15B49D2B1E91BB"
definition f_6_0 :: pyfloat where "f_6_0 = 0x4018000000000000"
definition f_10_0 :: pyfloat where "f_10_0 = 0x4024000000000000"

definition float_tab :: "string \<Rightarrow> pyfloat option" where
  "float_tab = map_of
     [(''0.0'', f_0_0), (''0.000'', f_0_0), (''0.5'', f_0_5), (''1.0'', f_1_0),
      (''0.010'', f_0_01), (''0.01'', f_0_01), (''0.006'', f_0_006),
      (''2.0'', f_2_0), (''2.76'', f_2_76), (''100.0'', f_100_0)]"

definition fmt_f_tab :: "nat \<Rightarrow> pyfloat \<Rightarrow> string" where
  "fmt_f_tab p x =
     (case map_of
        [((2, f_0_0), ''0.00''), ((2, f_2_0), ''2.00''),
         ((3, f_0_0), ''0.000''), ((3, f_0_3), ''0.300''), ((3, f_0_0000828), ''0.000''),
         ((5, f_0_0), ''0.00000''), ((5, f_0_01), ''0.01000''), ((5, f_0_5), ''0.50000''),
         ((5, f_1_0), ''1.00000''), ((5, f_2_76), ''2.76000''),
         ((5, f_100_0), ''100.00000'')] (p, x)
      of None \<Rightarrow> [] | Some t \<Rightarrow> t)"

definition fmt_g_tab :: "nat \<Rightarrow> pyfloat \<Rightarrow> string" where
  "fmt_g_tab p x =
     (case map_of [((5, f_0_0), ''0''), ((5, f_0_01), ''0.01''), ((5, f_0_006), ''0.006'')] (p, x)
      of None \<Rightarrow> [] | Some t \<Rightarrow> t)"

definition fmul_tab :: "pyfloat \<Rightarrow> pyfloat \<Rightarrow> pyfloat" where
  "fmul_tab x y =
     (case map_of
        [((f_0_0, f_1000), f_0_0), ((f_0_01, f_1000), f_10_0), ((f_0_006, f_1000), f_6_0)] (x, y)
      of None \<Rightarrow> 0 | Some z \<Rightarrow> z)"

definition repr_tab :: "pyfloat \<Rightarrow> string" where
  "repr_tab x =
     (case map_of
        [(f_0_0, ''0.0''), (f_0_5, ''0.5''), (f_1_0, ''1.0''), (f_0_01, ''0.01''),
         (f_0_006, ''0.006'')] x
      of None \<Rightarrow> [] | Some t \<Rightarrow> t)"

definition bench :: builtins where
  "bench =
     \<lparr>float_of = float_tab, fmt_f = fmt_f_tab, fmt_g = fmt_g_tab, fmul = fmul_tab,
      list_resources = [''GPIB0::24::INSTR''],
      open_resource = (\<lambda>r. r = ''GPIB0::24::INSTR''),
      open_w = (\<lambda>f. f \<noteq> [])\<rparr>"

text \<open>
  A reply of \<open>N = 100\<close> pairs: the three points of the specification's example,
  \<open>(0.0, 0.010)\<close>, \<open>(0.5, 0.006)\<close>, \<open>(1.0, 0.000)\<close>, the last one repeated to the end
  of the sweep. Its largest current is 0.010 at index 0, its largest product is
  \<open>0.5 * 0.006\<close> at index 1, and the current is zero from 1.0 volt on.
  \<open>cut_reply\<close> is the same reply cut off before its last field.
\<close>

definition cut_reply :: string where
  "cut_reply = ''0.0,0.010,0.5,0.006'' @ concat (replicate 97 '',1.0,0.000'') @ '',1.0''"

definition sweep_reply :: string where
  "sweep_reply = ''0.0,0.010,0.5,0.006'' @ concat (replicate 98 '',1.0,0.000'')"

text \<open>
  The state of the specification's export example: three points, area 2.76, flux 100.0,
  max current 0.01, max voltage 1.0, fill factor 0.3 and efficiency 0.0000828.
\<close>

definition export_example :: state where
  "export_example =
     (main_program bench)
       \<lparr>N := 3, Imax := f_0_01, Vmax := f_1_0, fillFactor := f_0_3,
        efficiency := f_0_0000828,
        current := [f_0_01, f_0_006, f_0_0], voltage := [f_0_0, f_0_5, f_1_0]\<rparr>"

text \<open>The metrics hold the values the module-level assignments gave them.\<close>

definition metrics_initial :: "state \<Rightarrow> bool" where
  "metrics_initial s \<longleftrightarrow>
     Imax s = f_0_0 \<and> Imax_index s = 0 \<and> IVmax s = f_0_0 \<and> IVmax_index s = 0 \<and>
     zero_index s = 0 \<and> Vmax s = f_0_0 \<and> fillFactor s = f_0_0 \<and> efficiency s = f_0_0"

text \<open>The state after the main program and the selection of the instrument, and the
  state after one sweep that returned \<open>sweep_reply\<close>.\<close>

definition selected :: state where
  "selected = run bench [Select ''GPIB0::24::INSTR''] (main_program bench)"

definition after_sweep :: state where
  "after_sweep = run bench [StartClick (Some sweep_reply)] selected"

text \<open>
  What every handler keeps, from the state \<open>s\<close> it starts in to the state \<open>s'\<close> it
  leaves: the derived metrics and \<open>N\<close>; each array is the old one or has length \<open>N\<close>;
  the log is extended, with no text set on the two output labels.
\<close>

definition keeps :: "state \<Rightarrow> state \<Rightarrow> bool" where
  "keeps s s' \<longleftrightarrow>
     Imax s' = Imax s \<and> Imax_index s' = Imax_index s \<and> IVmax s' = IVmax s \<and>
     IVmax_index s' = IVmax_index s \<and> zero_index s' = zero_index s \<and> Vmax s' = Vmax s \<and>
     fillFactor s' = fillFactor s \<and> efficiency s' = efficiency s \<and> N s' = N s \<and>
     (voltage s' = voltage s \<or> length (voltage s') = N s) \<and>
     (current s' = current s \<or> length (current s') = N s) \<and>
     (\<exists>evs. log s' = log s @ evs \<and> texts_on FfOutput evs = [] \<and> texts_on EfOutput evs = [])"

section \<open>Properties\<close>

subsection \<open>Splitting, ranges and the two comprehensions\<close>

lemma split_on_not_Nil: "split_on c xs \<noteq> []"
  by (induction xs) (auto split: list.splits)

lemma range_step_even: "range_step 0 (2 * n) 2 = map (\<lambda>k. 2 * k) [0..<n]"
proof -
  have "(2 * n - 0 + 2 - 1) div 2 = n" by simp
  then show ?thesis by (simp add: range_step_def mult.commute)
qed

lemma range_step_odd: "range_step 1 (2 * n) 2 = map (\<lambda>k. 2 * k + 1) [0..<n]"
proof -
  have "(2 * n - 1 + 2 - 1) div 2 = n" by (cases n) simp_all
  then show ?thesis by (simp add: range_step_def mult.commute)
qed

lemma range_step_odd_Suc: "range_step (Suc 0) (2 * n) 2 = map (\<lambda>k. 2 * k + 1) [0..<n]"
  using range_step_odd[of n] by simp

lemma floats_at_length: "floats_at env data js = Inr xs \<Longrightarrow> length xs = length js"
  by (induction js arbitrary: xs) (auto split: sum.splits)

lemma floats_at_nth:
  "floats_at env data js = Inr xs \<Longrightarrow> i < length js \<Longrightarrow> float_at env data (js ! i) = Inr (xs ! i)"
proof (induction js arbitrary: xs i)
  case Nil
  then show ?case by simp
next
  case (Cons j js)
  then show ?case by (cases i) (auto split: sum.splits)
qed

lemma floats_at_Inr_iff:
  "(\<exists>xs. floats_at env data js = Inr xs) \<longleftrightarrow>
     list_all (\<lambda>j. j < length data \<and> numeric env (data ! j)) js"
  by (induction js) (auto simp: float_at_def numeric_def split: sum.splits option.splits)

lemma float_at_Inr:
  "float_at env data j = Inr x \<longleftrightarrow> j < length data \<and> float_of env (data ! j) = Some x"
  by (auto simp: float_at_def split: option.splits)

lemma float_at_error: "float_at env data j = Inl e \<Longrightarrow> e = IndexError \<or> e = ValueError"
  by (auto simp: float_at_def split: option.splits if_splits)

lemma floats_at_error: "floats_at env data js = Inl e \<Longrightarrow> e = IndexError \<or> e = ValueError"
  by (induction js) (auto split: sum.splits dest: float_at_error)

lemma evens_odds_ok:
  "list_all (\<lambda>j. j < length data \<and> numeric env (data ! j)) (map (\<lambda>k. 2 * k) [0..<n]) \<and>
   list_all (\<lambda>j. j < length data \<and> numeric env (data ! j)) (map (\<lambda>k. 2 * k + 1) [0..<n])
   \<longleftrightarrow> 2 * n \<le> length data \<and> list_all (numeric env) (take (2 * n) data)"
  (is "?L \<longleftrightarrow> ?R")
proof
  assume L: ?L
  have len: "2 * n \<le> length data"
  proof (cases n)
    case 0 then show ?thesis by simp
  next
    case (Suc m)
    from L have "2 * m + 1 < length data" by (simp add: list_all_iff Suc)
    with Suc show ?thesis by simp
  qed
  have "numeric env (data ! i)" if "i < 2 * n" for i
  proof (cases "even i")
    case True
    then obtain k where k: "i = 2 * k" by (auto elim: evenE)
    with that have "k < n" by simp
    with L k show ?thesis by (simp add: list_all_iff)
  next
    case False
    then obtain k where k: "i = 2 * k + 1" by (auto elim: oddE)
    with that have "k < n" by simp
    with L k show ?thesis by (simp add: list_all_iff)
  qed
  with len show ?R by (auto simp: list_all_length)
next
  assume R: ?R
  then have num: "numeric env (data ! i)" if "i < 2 * n" for i
    using that by (auto simp: list_all_length)
  from R show ?L by (auto simp: list_all_iff intro!: num)
qed

lemma processData_Done_iff:
  "(\<exists>s'. processData env d s = Done s') \<longleftrightarrow>
     2 * N s \<le> length (split_on CHR '','' d) \<and>
     list_all (numeric env) (take (2 * N s) (split_on CHR '','' d))"
proof -
  let ?data = "split_on CHR '','' d"
  let ?ev = "floats_at env ?data (range_step 0 (2 * N s) 2)"
  let ?od = "floats_at env ?data (range_step 1 (2 * N s) 2)"
  have "(\<exists>s'. processData env d s = Done s') \<longleftrightarrow> (\<exists>vs. ?ev = Inr vs) \<and> (\<exists>cs. ?od = Inr cs)"
    by (auto simp: processData_def Let_def split: sum.splits)
  also have "\<dots> \<longleftrightarrow> 2 * N s \<le> length ?data \<and> list_all (numeric env) (take (2 * N s) ?data)"
    unfolding floats_at_Inr_iff range_step_even range_step_odd by (rule evens_odds_ok)
  finally show ?thesis .
qed

lemma processData_Done_arrays:
  assumes "processData env d s = Done s'"
  shows "floats_at env (split_on CHR '','' d) (map (\<lambda>k. 2 * k) [0..<N s]) = Inr (voltage s')"
    and "floats_at env (split_on CHR '','' d) (map (\<lambda>k. 2 * k + 1) [0..<N s]) = Inr (current s')"
  using assms
  by (auto simp: processData_def Let_def emits_def range_step_even range_step_odd_Suc split: sum.splits)

lemma processData_cases:
  "(\<exists>e. processData env d s = Raised e s \<and> (e = IndexError \<or> e = ValueError)) \<or>
   (\<exists>e vs. processData env d s = Raised e (s\<lparr>voltage := vs\<rparr>) \<and> length vs = N s \<and>
      (e = IndexError \<or> e = ValueError) \<and>
      floats_at env (split_on CHR '','' d) (map (\<lambda>k. 2 * k) [0..<N s]) = Inr vs) \<or>
   (\<exists>vs cs. processData env d s = Done (emits
                 [AxesCla,
                  AxesPlot vs (map (\<lambda>c. fmul env c f_1000) cs) ''r.'',
                  SetXLabel ''Voltage (V)'',
                  SetYLabel ''Current (mA)'',
                  Draw,
                  SetDisabled SaveButton False] (s\<lparr>voltage := vs, current := cs\<rparr>)) \<and>
      length vs = N s \<and> length cs = N s)"
proof (cases "floats_at env (split_on CHR '','' d) (range_step 0 (2 * N s) 2)")
  case (Inl e)
  then show ?thesis using floats_at_error[OF Inl] by (simp add: processData_def)
next
  case (Inr vs)
  note v = this
  have lv: "length vs = N s" using floats_at_length[OF v] by (simp add: range_step_even)
  show ?thesis
  proof (cases "floats_at env (split_on CHR '','' d) (range_step 1 (2 * N s) 2)")
    case (Inl e)
    then show ?thesis using floats_at_error[OF Inl] v lv
      by (simp add: processData_def range_step_even)
  next
    case (Inr cs)
    have "length cs = N s" using floats_at_length[OF Inr] by (simp add: range_step_odd_Suc)
    with v lv Inr show ?thesis
      by (intro disjI2 exI[of _ vs] exI[of _ cs]) (simp add: processData_def)
  qed
qed

subsection \<open>Joining and interleaving\<close>

lemma split_on_no_sep: "c \<notin> set t \<Longrightarrow> split_on c t = [t]"
  by (induction t) auto

lemma split_on_append_sep: "c \<notin> set t \<Longrightarrow> split_on c (t @ c # rest) = t # split_on c rest"
  by (induction t) auto

lemma split_on_join_comma:
  "ts \<noteq> [] \<Longrightarrow> list_all (\<lambda>t. CHR '','' \<notin> set t) ts \<Longrightarrow> split_on CHR '','' (join_comma ts) = ts"
proof (induction ts rule: join_comma.induct)
  case 1
  then show ?case by simp
next
  case (2 t)
  then show ?case by (simp add: split_on_no_sep)
next
  case (3 t u us)
  then show ?case by (simp add: split_on_append_sep)
qed

lemma length_interleave:
  "length xs = length ys \<Longrightarrow> length (interleave xs ys) = 2 * length xs"
  by (induction xs ys rule: list_induct2) auto

lemma nth_interleave_even:
  "length xs = length ys \<Longrightarrow> j < length xs \<Longrightarrow> interleave xs ys ! (2 * j) = xs ! j"
proof (induction xs ys arbitrary: j rule: list_induct2)
  case Nil
  then show ?case by simp
next
  case (Cons x xs y ys)
  then show ?case by (cases j) auto
qed

lemma nth_interleave_odd:
  "length xs = length ys \<Longrightarrow> j < length xs \<Longrightarrow> interleave xs ys ! (2 * j + 1) = ys ! j"
proof (induction xs ys arbitrary: j rule: list_induct2)
  case Nil
  then show ?case by simp
next
  case (Cons x xs y ys)
  then show ?case by (cases j) auto
qed

lemma map_interleave: "map f (interleave xs ys) = interleave (map f xs) (map f ys)"
  by (induction xs ys rule: interleave.induct) auto

lemma interleave_eqI:
  assumes "length xs = n" "length ys = n" "length zs = 2 * n"
    and "\<And>j. j < n \<Longrightarrow> zs ! (2 * j) = xs ! j"
    and "\<And>j. j < n \<Longrightarrow> zs ! (2 * j + 1) = ys ! j"
  shows "zs = interleave xs ys"
proof (rule nth_equalityI)
  show "length zs = length (interleave xs ys)" using assms by (simp add: length_interleave)
next
  fix i assume "i < length zs"
  then have i: "i < 2 * n" using assms by simp
  show "zs ! i = interleave xs ys ! i"
  proof (cases "even i")
    case True
    then obtain k where k: "i = 2 * k" by (auto elim: evenE)
    with i have "k < n" by simp
    with k assms show ?thesis by (simp add: nth_interleave_even)
  next
    case False
    then obtain k where k: "i = 2 * k + 1" by (auto elim: oddE)
    with i have "k < n" by simp
    with k assms show ?thesis using nth_interleave_odd[of xs ys k] by simp
  qed
qed

lemma processData_Done_nth:
  assumes "processData env d s = Done s'"
  shows "length (voltage s') = N s" "length (current s') = N s"
    "j < N s \<Longrightarrow> float_of env (split_on CHR '','' d ! (2 * j)) = Some (voltage s' ! j)"
    "j < N s \<Longrightarrow> float_of env (split_on CHR '','' d ! (2 * j + 1)) = Some (current s' ! j)"
proof -
  note v = processData_Done_arrays(1)[OF assms] and c = processData_Done_arrays(2)[OF assms]
  show "length (voltage s') = N s" using floats_at_length[OF v] by simp
  show "length (current s') = N s" using floats_at_length[OF c] by simp
  show "float_of env (split_on CHR '','' d ! (2 * j)) = Some (voltage s' ! j)" if "j < N s"
    using floats_at_nth[OF v, of j] that by (simp add: float_at_Inr)
  show "float_of env (split_on CHR '','' d ! (2 * j + 1)) = Some (current s' ! j)" if "j < N s"
    using floats_at_nth[OF c, of j] that by (simp add: float_at_Inr)
qed

lemma processData_values:
  assumes d: "processData env d s = Done s'"
    and len: "length (split_on CHR '','' d) = 2 * N s"
  shows "map (float_of env) (split_on CHR '','' d) = map Some (interleave (voltage s') (current s'))"
proof -
  note p = processData_Done_nth[OF d]
  have "map (float_of env) (split_on CHR '','' d) =
      interleave (map Some (voltage s')) (map Some (current s'))"
    by (rule interleave_eqI[where n = "N s"]) (use p len in simp_all)
  also have "\<dots> = map Some (interleave (voltage s') (current s'))"
    by (simp add: map_interleave)
  finally show ?thesis .
qed

subsection \<open>The log and its projections\<close>

lemma emits_Nil: "emits [] s = s"
  by (simp add: emits_def)

lemma emit_emits: "emit ev s = emits [ev] s"
  by (simp add: emit_def emits_def)

lemma emits_emits: "emits evs' (emits evs s) = emits (evs @ evs') s"
  by (simp add: emits_def)

lemma emits_fields:
  "voltage (emits evs s) = voltage s" "current (emits evs s) = current s"
  "N (emits evs s) = N s" "SM (emits evs s) = SM s" "log (emits evs s) = log s @ evs"
  "area (emits evs s) = area s" "flux (emits evs s) = flux s"
  "minV (emits evs s) = minV s" "maxV (emits evs s) = maxV s"
  by (simp_all add: emits_def)

lemma texts_on_append: "texts_on w (evs @ evs') = texts_on w evs @ texts_on w evs'"
  by (induction w evs rule: texts_on.induct) auto

lemma sent_append: "sent (evs @ evs') = sent evs @ sent evs'"
  by (induction evs rule: sent.induct) auto

lemma file_writes_append: "file_writes (evs @ evs') = file_writes evs @ file_writes evs'"
  by (induction evs rule: file_writes.induct) auto

lemma toggles_of_append: "toggles_of w (evs @ evs') = toggles_of w evs @ toggles_of w evs'"
  by (induction w evs rule: toggles_of.induct) auto

lemma texts_on_FileWrite: "texts_on w (map FileWrite xs) = []"
  by (induction xs) auto

lemma file_writes_FileWrite: "file_writes (map FileWrite xs) = xs"
  by (induction xs) auto

lemma sent_FileWrite: "sent (map FileWrite xs) = []"
  by (induction xs) auto

lemma data_row_emits: "data_row env (emits evs s) j = data_row env s j"
  by (simp add: data_row_def emits_fields)

lemma write_rows_ok:
  "list_all (\<lambda>j. j < length (voltage s) \<and> j < length (current s)) js \<Longrightarrow>
   write_rows env js (emits evs s) =
     Done (emits (evs @ map (\<lambda>j. FileWrite
        (fmt_f env 5 (voltage s ! j) @ tab @ fmt_g env 5 (current s ! j) @ nl)) js) s)"
proof (induction js arbitrary: evs)
  case Nil
  then show ?case by simp
next
  case (Cons j js)
  from Cons.prems have row: "data_row env s j =
      Inr (fmt_f env 5 (voltage s ! j) @ tab @ fmt_g env 5 (current s ! j) @ nl)"
    by (simp add: data_row_def)
  from Cons.prems have rest: "list_all (\<lambda>j. j < length (voltage s) \<and> j < length (current s)) js"
    by simp
  show ?case
    using Cons.IH[OF rest, of "evs @ [FileWrite
        (fmt_f env 5 (voltage s ! j) @ tab @ fmt_g env 5 (current s ! j) @ nl)]"]
    by (simp add: data_row_emits row emit_emits emits_emits)
qed

lemma write_rows_any:
  "\<exists>rows. state_of (write_rows env js (emits evs s)) = emits (evs @ map FileWrite rows) s"
proof (induction js arbitrary: evs)
  case Nil
  show ?case by (rule exI[of _ "[]"]) simp
next
  case (Cons j js)
  show ?case
  proof (cases "data_row env s j")
    case (Inl e)
    then have "state_of (write_rows env (j # js) (emits evs s)) = emits (evs @ map FileWrite []) s"
      by (simp add: data_row_emits)
    then show ?thesis by blast
  next
    case (Inr row)
    from Cons.IH[of "evs @ [FileWrite row]"] obtain rows where
      "state_of (write_rows env js (emits (evs @ [FileWrite row]) s)) =
         emits ((evs @ [FileWrite row]) @ map FileWrite rows) s" by blast
    then have "state_of (write_rows env (j # js) (emits evs s)) =
         emits (evs @ map FileWrite (row # rows)) s"
      by (simp add: data_row_emits Inr emit_emits emits_emits)
    then show ?thesis by blast
  qed
qed

lemma save_clicked_ok:
  assumes "open_w env filename" "length (voltage s) = N s" "length (current s) = N s"
  shows "save_clicked env filename s =
     Done (emits
       (FileOpen filename #
        map FileWrite (file_header env s @
          map (\<lambda>j. fmt_f env 5 (voltage s ! j) @ tab @ fmt_g env 5 (current s ! j) @ nl) [0..<N s]) @
        [FileClose, SetText SaveButton ''Data Saved'', SetDisabled SaveButton True]) s)"
proof -
  have "list_all (\<lambda>j. j < length (voltage s) \<and> j < length (current s)) [0..<N s]"
    using assms by (simp add: list_all_iff)
  from write_rows_ok[OF this, of env "FileOpen filename # map FileWrite (file_header env s)"]
  show ?thesis using assms(1) by (simp add: save_clicked_def emits_emits comp_def)
qed

lemma save_clicked_any:
  "\<exists>evs. state_of (save_clicked env filename s) = emits evs s \<and>
         texts_on FfOutput evs = [] \<and> texts_on EfOutput evs = []"
proof (cases "open_w env filename")
  case False
  then have "state_of (save_clicked env filename s) = emits [] s"
    by (simp add: save_clicked_def emits_Nil)
  then show ?thesis by (intro exI[of _ "[]"]) simp
next
  case True
  let ?hd = "FileOpen filename # map FileWrite (file_header env s)"
  from write_rows_any[of env "[0..<N s]" ?hd s] obtain rows where
    r: "state_of (write_rows env [0..<N s] (emits ?hd s)) = emits (?hd @ map FileWrite rows) s"
    by blast
  show ?thesis
  proof (cases "write_rows env [0..<N s] (emits ?hd s)")
    case (Done s1)
    with r True have "state_of (save_clicked env filename s) =
        emits (?hd @ map FileWrite rows @
          [FileClose, SetText SaveButton ''Data Saved'', SetDisabled SaveButton True]) s"
      by (simp add: save_clicked_def emits_emits)
    moreover have "texts_on w (?hd @ map FileWrite rows @
          [FileClose, SetText SaveButton ''Data Saved'', SetDisabled SaveButton True]) = []"
      if "w \<noteq> SaveButton" for w
      using that by (simp add: texts_on_append texts_on_FileWrite)
    ultimately show ?thesis by (intro exI) auto
  next
    case (Raised e s1)
    with r True have "state_of (save_clicked env filename s) = emits (?hd @ map FileWrite rows) s"
      by (simp add: save_clicked_def)
    moreover have "texts_on w (?hd @ map FileWrite rows) = []" for w
      by (simp add: texts_on_append texts_on_FileWrite)
    ultimately show ?thesis by (intro exI) auto
  qed
qed

subsection \<open>The example replies, evaluated\<close>

lemma sweep_fields:
  "split_on CHR '','' sweep_reply =
     [''0.0'', ''0.010'', ''0.5'', ''0.006''] @ concat (replicate 98 [''1.0'', ''0.000''])"
  by code_simp

lemma cut_fields:
  "split_on CHR '','' cut_reply =
     [''0.0'', ''0.010'', ''0.5'', ''0.006''] @ concat (replicate 97 [''1.0'', ''0.000'']) @ [''1.0'']"
  by code_simp

lemma sweep_numeric: "list_all (numeric bench) (take 200 (split_on CHR '','' sweep_reply))"
  unfolding sweep_fields by code_simp

lemma sweep_length: "length (split_on CHR '','' sweep_reply) = 200"
  unfolding sweep_fields by code_simp

lemma sweep_evens:
  "floats_at bench (split_on CHR '','' sweep_reply) (range_step 0 200 2) =
     Inr (f_0_0 # f_0_5 # replicate 98 f_1_0)"
  unfolding sweep_fields by code_simp

lemma sweep_odds:
  "floats_at bench (split_on CHR '','' sweep_reply) (range_step 1 200 2) =
     Inr (f_0_01 # f_0_006 # replicate 98 f_0_0)"
  unfolding sweep_fields by code_simp

lemma cut_evens:
  "floats_at bench (split_on CHR '','' cut_reply) (range_step 0 200 2) =
     Inr (f_0_0 # f_0_5 # replicate 98 f_1_0)"
  unfolding cut_fields by code_simp

lemma cut_odds:
  "floats_at bench (split_on CHR '','' cut_reply) (range_step 1 200 2) = Inl IndexError"
  unfolding cut_fields by code_simp

lemma processData_sweep_reply:
  assumes "N s = 100"
  shows "processData bench sweep_reply s =
     Done (emits
       [AxesCla,
        AxesPlot (f_0_0 # f_0_5 # replicate 98 f_1_0)
          (map (\<lambda>c. fmul bench c f_1000) (f_0_01 # f_0_006 # replicate 98 f_0_0)) ''r.'',
        SetXLabel ''Voltage (V)'',
        SetYLabel ''Current (mA)'',
        Draw,
        SetDisabled SaveButton False]
       (s\<lparr>voltage := f_0_0 # f_0_5 # replicate 98 f_1_0,
          current := f_0_01 # f_0_006 # replicate 98 f_0_0\<rparr>))"
proof -
  have "2 * N s = 200" using assms by simp
  then show ?thesis
    unfolding processData_def Let_def by (simp only: sweep_evens sweep_odds sum.case)
qed

lemma processData_cut_reply:
  assumes "N s = 100"
  shows "processData bench cut_reply s =
     Raised IndexError (s\<lparr>voltage := f_0_0 # f_0_5 # replicate 98 f_1_0\<rparr>)"
proof -
  have "2 * N s = 200" using assms by simp
  then show ?thesis
    unfolding processData_def Let_def by (simp only: cut_evens cut_odds sum.case)
qed

lemma main_N: "N (main_program bench) = 100"
  by (simp add: main_program_def updateOutput_def emits_def globals0_def)

lemma main_arrays:
  "voltage (main_program bench) = replicate 100 f_0_0"
  "current (main_program bench) = replicate 100 f_0_0"
  by (simp_all add: main_program_def updateOutput_def emits_def globals0_def)

subsection \<open>The parse step\<close>

text \<open>
  C2. When the reply has at least \<open>2N\<close> fields and the first \<open>2N\<close> are numeric,
  \<open>processData\<close> returns normally with two sequences of length \<open>N\<close>; \<open>voltage[j]\<close> is
  \<open>float()\<close> of field \<open>2j\<close> and \<open>current[j]\<close> is \<open>float()\<close> of field \<open>2j+1\<close>, each a
  binary64 value.
\<close>

theorem parse_interleaved:
  assumes "2 * N s \<le> length (split_on CHR '','' d)"
    and "list_all (numeric env) (take (2 * N s) (split_on CHR '','' d))"
  shows "\<exists>s'. processData env d s = Done s' \<and>
           length (voltage s') = N s \<and> length (current s') = N s \<and>
           (\<forall>j<N s. float_of env (split_on CHR '','' d ! (2 * j)) = Some (voltage s' ! j) \<and>
                     float_of env (split_on CHR '','' d ! (2 * j + 1)) = Some (current s' ! j))"
proof -
  from assms obtain s' where d: "processData env d s = Done s'"
    using processData_Done_iff by blast
  note v = processData_Done_arrays(1)[OF d] and c = processData_Done_arrays(2)[OF d]
  have lv: "length (voltage s') = N s" using floats_at_length[OF v] by simp
  have lc: "length (current s') = N s" using floats_at_length[OF c] by simp
  have "float_of env (split_on CHR '','' d ! (2 * j)) = Some (voltage s' ! j)" if "j < N s" for j
    using floats_at_nth[OF v, of j] that by (simp add: float_at_Inr)
  moreover
  have "float_of env (split_on CHR '','' d ! (2 * j + 1)) = Some (current s' ! j)" if "j < N s" for j
    using floats_at_nth[OF c, of j] that by (simp add: float_at_Inr)
  ultimately show ?thesis using d lv lc by blast
qed

theorem parse_interleaved_witness:
  "2 * N (main_program bench) \<le> length (split_on CHR '','' sweep_reply) \<and>
   list_all (numeric bench) (take (2 * N (main_program bench)) (split_on CHR '','' sweep_reply)) \<and>
   (\<exists>s'. processData bench sweep_reply (main_program bench) = Done s' \<and>
      length (voltage s') = 100 \<and> length (current s') = 100 \<and>
      float_of bench (split_on CHR '','' sweep_reply ! 2) = Some (voltage s' ! 1) \<and>
      float_of bench (split_on CHR '','' sweep_reply ! 3) = Some (current s' ! 1))"
proof -
  have h1: "2 * N (main_program bench) \<le> length (split_on CHR '','' sweep_reply)"
    by (simp add: main_N sweep_length)
  have h2: "list_all (numeric bench)
      (take (2 * N (main_program bench)) (split_on CHR '','' sweep_reply))"
    by (simp add: main_N sweep_numeric)
  from parse_interleaved[OF h1 h2] obtain s' where
    d: "processData bench sweep_reply (main_program bench) = Done s'" and
    l: "length (voltage s') = N (main_program bench)"
       "length (current s') = N (main_program bench)" and
    a: "\<forall>j<N (main_program bench).
          float_of bench (split_on CHR '','' sweep_reply ! (2 * j)) = Some (voltage s' ! j) \<and>
          float_of bench (split_on CHR '','' sweep_reply ! (2 * j + 1)) = Some (current s' ! j)"
    by blast
  from a[rule_format, of 1] have
    "float_of bench (split_on CHR '','' sweep_reply ! 2) = Some (voltage s' ! 1)"
    "float_of bench (split_on CHR '','' sweep_reply ! 3) = Some (current s' ! 1)"
    by (simp_all add: main_N)
  with d l h1 h2 show ?thesis by (simp add: main_N)
qed

text \<open>
  C3, as the code has it. The parse step returns normally exactly when the reply has at
  least \<open>2N\<close> fields and the first \<open>2N\<close> are numeric: fields past the first \<open>2N\<close> are
  ignored, and with \<open>N = 0\<close> every reply is accepted and gives two empty sequences. A
  reply with fewer than \<open>2N\<close> fields, or with a field among the first \<open>2N\<close> that is not
  numeric, raises IndexError or ValueError. No sequence of a length other than \<open>N\<close> is
  ever stored: after the call each sequence is the one from before or a new one of
  length \<open>N\<close>.
\<close>

theorem parse_succeeds_iff:
  "((\<exists>s'. processData env d s = Done s') \<longleftrightarrow>
      2 * N s \<le> length (split_on CHR '','' d) \<and>
      list_all (numeric env) (take (2 * N s) (split_on CHR '','' d))) \<and>
   (case processData env d s of
      Done s' \<Rightarrow> length (voltage s') = N s \<and> length (current s') = N s
    | Raised e s' \<Rightarrow>
        (e = IndexError \<or> e = ValueError) \<and>
        (voltage s' = voltage s \<or> length (voltage s') = N s) \<and> current s' = current s)"
proof
  show "(\<exists>s'. processData env d s = Done s') \<longleftrightarrow>
      2 * N s \<le> length (split_on CHR '','' d) \<and>
      list_all (numeric env) (take (2 * N s) (split_on CHR '','' d))"
    by (rule processData_Done_iff)
next
  from processData_cases[of env d s]
  show "case processData env d s of
      Done s' \<Rightarrow> length (voltage s') = N s \<and> length (current s') = N s
    | Raised e s' \<Rightarrow>
        (e = IndexError \<or> e = ValueError) \<and>
        (voltage s' = voltage s \<or> length (voltage s') = N s) \<and> current s' = current s"
    by (auto simp: emits_def)
qed

text \<open>
  The claim as stated asks for an error whenever the number of fields is not \<open>2N\<close>. A
  reply of 202 fields is accepted with \<open>N = 100\<close>, and with \<open>N = 0\<close> the reply \<open>x\<close> is.
\<close>

theorem long_reply_accepted:
  "length (split_on CHR '','' (sweep_reply @ '',1.0,0.000'')) = 202 \<and>
   2 * N (main_program bench) = 200 \<and>
   \<not> raised (processData bench (sweep_reply @ '',1.0,0.000'') (main_program bench)) \<and>
   \<not> raised (processData bench ''x'' ((main_program bench)\<lparr>N := 0\<rparr>))"
proof -
  have f: "split_on CHR '','' (sweep_reply @ '',1.0,0.000'') =
     [''0.0'', ''0.010'', ''0.5'', ''0.006''] @ concat (replicate 99 [''1.0'', ''0.000''])"
    by code_simp
  have l: "length (split_on CHR '','' (sweep_reply @ '',1.0,0.000'')) = 202"
    unfolding f by code_simp
  have n: "list_all (numeric bench) (take 200 (split_on CHR '','' (sweep_reply @ '',1.0,0.000'')))"
    unfolding f by code_simp
  have "\<exists>s'. processData bench (sweep_reply @ '',1.0,0.000'') (main_program bench) = Done s'"
    unfolding processData_Done_iff by (simp add: main_N l n)
  then have a: "\<not> raised (processData bench (sweep_reply @ '',1.0,0.000'') (main_program bench))"
    by auto
  have "\<exists>s'. processData bench ''x'' ((main_program bench)\<lparr>N := 0\<rparr>) = Done s'"
    unfolding processData_Done_iff by simp
  then have b: "\<not> raised (processData bench ''x'' ((main_program bench)\<lparr>N := 0\<rparr>))"
    by auto
  from l a b show ?thesis by (simp add: main_N)
qed

text \<open>
  C4, as the code has it. The two sequences are assigned one after the other, and what
  the call leaves is decided by the two comprehensions, in this order.
  \<^item> If a voltage field (an even index below \<open>2N\<close>) is missing or not numeric, the call
    raises and the state is the one from before: neither sequence has changed.
  \<^item> If every voltage field was read and a current field (an odd index below \<open>2N\<close>) is
    missing or not numeric, the call raises with \<open>voltage\<close> already replaced by the
    \<open>N\<close> new values and everything else, \<open>current\<close> included, as before.
  \<^item> Otherwise the call returns normally with both sequences replaced by \<open>N\<close> new
    values each.
\<close>

theorem update_in_two_steps:
  "(case floats_at env (split_on CHR '','' d) (map (\<lambda>k. 2 * k) [0..<N s]) of
      Inl e \<Rightarrow> processData env d s = Raised e s
    | Inr vs \<Rightarrow>
        length vs = N s \<and>
        (case floats_at env (split_on CHR '','' d) (map (\<lambda>k. 2 * k + 1) [0..<N s]) of
           Inl e \<Rightarrow> processData env d s = Raised e (s\<lparr>voltage := vs\<rparr>)
         | Inr cs \<Rightarrow>
             length cs = N s \<and>
             processData env d s =
               Done (emits
                 [AxesCla,
                  AxesPlot vs (map (\<lambda>c. fmul env c f_1000) cs) ''r.'',
                  SetXLabel ''Voltage (V)'',
                  SetYLabel ''Current (mA)'',
                  Draw,
                  SetDisabled SaveButton False]
                 (s\<lparr>voltage := vs, current := cs\<rparr>)))) \<and>
   ((\<exists>vs. floats_at env (split_on CHR '','' d) (map (\<lambda>k. 2 * k) [0..<N s]) = Inr vs) \<longleftrightarrow>
      list_all (\<lambda>j. j < length (split_on CHR '','' d) \<and> numeric env (split_on CHR '','' d ! j))
        (map (\<lambda>k. 2 * k) [0..<N s])) \<and>
   ((\<exists>cs. floats_at env (split_on CHR '','' d) (map (\<lambda>k. 2 * k + 1) [0..<N s]) = Inr cs) \<longleftrightarrow>
      list_all (\<lambda>j. j < length (split_on CHR '','' d) \<and> numeric env (split_on CHR '','' d ! j))
        (map (\<lambda>k. 2 * k + 1) [0..<N s])) \<and>
   (case processData env d s of
      Done s' \<Rightarrow>
        length (voltage s') = N s \<and> length (current s') = N s \<and>
        floats_at env (split_on CHR '','' d) (map (\<lambda>k. 2 * k) [0..<N s]) = Inr (voltage s') \<and>
        floats_at env (split_on CHR '','' d) (map (\<lambda>k. 2 * k + 1) [0..<N s]) = Inr (current s')
    | Raised e s' \<Rightarrow>
        current s' = current s \<and>
        (s' = s \<or>
         s' = s\<lparr>voltage := voltage s'\<rparr> \<and> length (voltage s') = N s \<and>
         floats_at env (split_on CHR '','' d) (map (\<lambda>k. 2 * k) [0..<N s]) = Inr (voltage s')))"
proof (intro conjI)
  let ?data = "split_on CHR '','' d"
  let ?ev = "floats_at env ?data (map (\<lambda>k. 2 * k) [0..<N s])"
  let ?od = "floats_at env ?data (map (\<lambda>k. 2 * k + 1) [0..<N s])"
  show "case ?ev of
      Inl e \<Rightarrow> processData env d s = Raised e s
    | Inr vs \<Rightarrow>
        length vs = N s \<and>
        (case ?od of
           Inl e \<Rightarrow> processData env d s = Raised e (s\<lparr>voltage := vs\<rparr>)
         | Inr cs \<Rightarrow>
             length cs = N s \<and>
             processData env d s =
               Done (emits
                 [AxesCla,
                  AxesPlot vs (map (\<lambda>c. fmul env c f_1000) cs) ''r.'',
                  SetXLabel ''Voltage (V)'',
                  SetYLabel ''Current (mA)'',
                  Draw,
                  SetDisabled SaveButton False]
                 (s\<lparr>voltage := vs, current := cs\<rparr>)))"
  proof (cases ?ev)
    case (Inl e)
    then show ?thesis by (simp add: processData_def range_step_even)
  next
    case ev: (Inr vs)
    have lv: "length vs = N s" using floats_at_length[OF ev] by simp
    show ?thesis
    proof (cases ?od)
      case (Inl e)
      with ev lv show ?thesis
        by (simp add: processData_def range_step_even range_step_odd_Suc)
    next
      case od: (Inr cs)
      have "length cs = N s" using floats_at_length[OF od] by simp
      with ev od lv show ?thesis
        by (simp add: processData_def range_step_even range_step_odd_Suc)
    qed
  qed
next
  show "(\<exists>vs. floats_at env (split_on CHR '','' d) (map (\<lambda>k. 2 * k) [0..<N s]) = Inr vs) \<longleftrightarrow>
      list_all (\<lambda>j. j < length (split_on CHR '','' d) \<and> numeric env (split_on CHR '','' d ! j))
        (map (\<lambda>k. 2 * k) [0..<N s])"
    by (rule floats_at_Inr_iff)
next
  show "(\<exists>cs. floats_at env (split_on CHR '','' d) (map (\<lambda>k. 2 * k + 1) [0..<N s]) = Inr cs) \<longleftrightarrow>
      list_all (\<lambda>j. j < length (split_on CHR '','' d) \<and> numeric env (split_on CHR '','' d ! j))
        (map (\<lambda>k. 2 * k + 1) [0..<N s])"
    by (rule floats_at_Inr_iff)
next
  show "case processData env d s of
      Done s' \<Rightarrow>
        length (voltage s') = N s \<and> length (current s') = N s \<and>
        floats_at env (split_on CHR '','' d) (map (\<lambda>k. 2 * k) [0..<N s]) = Inr (voltage s') \<and>
        floats_at env (split_on CHR '','' d) (map (\<lambda>k. 2 * k + 1) [0..<N s]) = Inr (current s')
    | Raised e s' \<Rightarrow>
        current s' = current s \<and>
        (s' = s \<or>
         s' = s\<lparr>voltage := voltage s'\<rparr> \<and> length (voltage s') = N s \<and>
         floats_at env (split_on CHR '','' d) (map (\<lambda>k. 2 * k) [0..<N s]) = Inr (voltage s'))"
  proof (cases "processData env d s")
    case (Done s')
    from processData_cases[of env d s] Done
    have "length (voltage s') = N s \<and> length (current s') = N s" by (auto simp: emits_def)
    with processData_Done_arrays[OF Done] Done show ?thesis by simp
  next
    case (Raised e s')
    from processData_cases[of env d s] Raised show ?thesis by auto
  qed
qed

text \<open>
  The claim as stated excludes a state with one sequence updated and the other not. The
  reply cut off before its last field leaves exactly that: \<open>voltage\<close> holds the new
  sweep, \<open>current\<close> still the zeros of the main program.
\<close>

theorem half_update:
  "processData bench cut_reply (main_program bench) =
     Raised IndexError ((main_program bench)\<lparr>voltage := f_0_0 # f_0_5 # replicate 98 f_1_0\<rparr>) \<and>
   voltage (main_program bench) = replicate 100 f_0_0 \<and>
   current (main_program bench) = replicate 100 f_0_0 \<and>
   f_0_0 # f_0_5 # replicate 98 f_1_0 \<noteq> replicate 100 f_0_0"
proof -
  have "f_0_0 # f_0_5 # replicate 98 f_1_0 \<noteq> replicate 100 f_0_0" by code_simp
  then show ?thesis
    by (simp add: processData_cut_reply[OF main_N] main_arrays)
qed

text \<open>
  C8. A reply of \<open>2N\<close> numeric fields parses into two sequences of length \<open>N\<close> whose
  interleaving is, value for value, the list of the fields. Formatting the interleaved
  values with any \<open>fmt\<close> that writes a value as a comma-free token of the same value
  (as \<open>repr\<close> does) and joining with commas gives a reply whose fields have the values of
  the original fields and which parses to the same two sequences.
\<close>

theorem parse_roundtrip:
  assumes len: "length (split_on CHR '','' d) = 2 * N s"
    and num: "list_all (numeric env) (split_on CHR '','' d)"
    and fmt: "list_all
        (\<lambda>t. float_of env (fmt (the (float_of env t))) = float_of env t \<and>
             CHR '','' \<notin> set (fmt (the (float_of env t))))
        (split_on CHR '','' d)"
  shows "\<exists>s'. processData env d s = Done s' \<and>
           length (voltage s') = N s \<and> length (current s') = N s \<and>
           map (float_of env) (split_on CHR '','' d) =
             map Some (interleave (voltage s') (current s')) \<and>
           (let d' = join_comma (map fmt (interleave (voltage s') (current s'))) in
              map (float_of env) (split_on CHR '','' d') = map (float_of env) (split_on CHR '','' d) \<and>
              (\<exists>s''. processData env d' s = Done s'' \<and>
                     voltage s'' = voltage s' \<and> current s'' = current s'))"
proof -
  let ?data = "split_on CHR '','' d"
  from len num obtain s' where d: "processData env d s = Done s'"
    using processData_Done_iff[of env d s] by auto
  note p = processData_Done_nth[OF d]
  let ?vals = "interleave (voltage s') (current s')"
  let ?toks = "map fmt ?vals"
  let ?d' = "join_comma ?toks"
  have vals: "map (float_of env) ?data = map Some ?vals"
    by (rule processData_values[OF d len])
  have lvals: "length ?vals = 2 * N s" using p(1,2) by (simp add: length_interleave)
  have val_nth: "?vals ! i = the (float_of env (?data ! i))" if "i < 2 * N s" for i
  proof -
    from vals have "map (float_of env) ?data ! i = map Some ?vals ! i" by simp
    with that len lvals show ?thesis by simp
  qed
  have tok: "float_of env (?toks ! i) = float_of env (?data ! i) \<and> CHR '','' \<notin> set (?toks ! i)"
    if "i < 2 * N s" for i
  proof -
    from fmt that len have
      "float_of env (fmt (the (float_of env (?data ! i)))) = float_of env (?data ! i) \<and>
       CHR '','' \<notin> set (fmt (the (float_of env (?data ! i))))"
      by (simp add: list_all_length)
    with that lvals val_nth[OF that] show ?thesis by simp
  qed
  have ne: "?toks \<noteq> []"
  proof -
    have "?data \<noteq> []" by (rule split_on_not_Nil)
    with len have "0 < 2 * N s" by (cases ?data) auto
    with lvals show ?thesis by auto
  qed
  have nocomma: "list_all (\<lambda>t. CHR '','' \<notin> set t) ?toks"
    using tok lvals by (simp add: list_all_length)
  have split': "split_on CHR '','' ?d' = ?toks"
    by (rule split_on_join_comma[OF ne nocomma])
  have same: "map (float_of env) ?toks = map (float_of env) ?data"
    by (rule nth_equalityI) (use tok lvals len in simp_all)
  have num': "list_all (numeric env) ?toks"
  proof -
    have "numeric env (?toks ! i)" if "i < 2 * N s" for i
      using tok[OF that] num that len by (simp add: numeric_def list_all_length)
    with lvals show ?thesis by (simp add: list_all_length)
  qed
  from lvals num' split' obtain s'' where d'': "processData env ?d' s = Done s''"
    using processData_Done_iff[of env ?d' s] by auto
  note q = processData_Done_nth[OF d'']
  have "voltage s'' = voltage s'"
  proof (rule nth_equalityI)
    show "length (voltage s'') = length (voltage s')" using p(1) q(1) by simp
  next
    fix j assume "j < length (voltage s'')"
    then have j: "j < N s" using q(1) by simp
    then have "2 * j < 2 * N s" by simp
    from tok[OF this] q(3)[OF j] p(3)[OF j] show "voltage s'' ! j = voltage s' ! j"
      by (simp add: split')
  qed
  moreover have "current s'' = current s'"
  proof (rule nth_equalityI)
    show "length (current s'') = length (current s')" using p(2) q(2) by simp
  next
    fix j assume "j < length (current s'')"
    then have j: "j < N s" using q(2) by simp
    then have "2 * j + 1 < 2 * N s" by simp
    from tok[OF this] q(4)[OF j] p(4)[OF j] show "current s'' ! j = current s' ! j"
      by (simp add: split')
  qed
  ultimately show ?thesis using d p(1,2) vals same d'' by (simp add: split' Let_def)
qed

lemma sweep_numeric_all: "list_all (numeric bench) (split_on CHR '','' sweep_reply)"
  unfolding sweep_fields by code_simp

lemma sweep_repr:
  "list_all
     (\<lambda>t. float_of bench (repr_tab (the (float_of bench t))) = float_of bench t \<and>
          CHR '','' \<notin> set (repr_tab (the (float_of bench t))))
     (split_on CHR '','' sweep_reply)"
  unfolding sweep_fields by code_simp

theorem parse_roundtrip_witness:
  "length (split_on CHR '','' sweep_reply) = 2 * N (main_program bench) \<and>
   list_all (numeric bench) (split_on CHR '','' sweep_reply) \<and>
   (\<exists>s'. processData bench sweep_reply (main_program bench) = Done s' \<and>
      length (voltage s') = 100 \<and> length (current s') = 100 \<and>
      map (float_of bench)
        (split_on CHR '','' (join_comma (map repr_tab (interleave (voltage s') (current s'))))) =
      map (float_of bench) (split_on CHR '','' sweep_reply))"
proof -
  have h1: "length (split_on CHR '','' sweep_reply) = 2 * N (main_program bench)"
    by (simp add: main_N sweep_length)
  from parse_roundtrip[OF h1 sweep_numeric_all sweep_repr]
  show ?thesis using h1 sweep_numeric_all by (auto simp: Let_def main_N)
qed

subsection \<open>Saving\<close>

text \<open>
  C5, as the code has it. When the chosen file opens and the two arrays have length
  \<open>N\<close>, \<open>save_clicked\<close> opens the file, writes six header lines beginning with \<open>#\<close>
  (area, flux, max current, max voltage in \<open>%0.5f\<close>, fill factor and efficiency in
  \<open>%0.3f\<close>), then the column-header line \<open># Voltage<TAB>Current\<close>, which begins with
  \<open>#\<close> too, then exactly \<open>N\<close> lines \<open>%0.5f<TAB>%0.5g\<close> of voltage and current, and closes
  the file.
\<close>

theorem save_writes_file:
  assumes "open_w env filename" "length (voltage s) = N s" "length (current s) = N s"
  shows "\<exists>s'. save_clicked env filename s = Done s' \<and>
     log s' = log s @
       [FileOpen filename] @
       map FileWrite
         ([''# Area = '' @ fmt_f env 5 (area s) @ '' (units?)'' @ nl,
           ''# Flux = '' @ fmt_f env 5 (flux s) @ '' (units?)'' @ nl,
           ''# Max Current = '' @ fmt_f env 5 (Imax s) @ '' mA'' @ nl,
           ''# Max Voltage = '' @ fmt_f env 5 (Vmax s) @ '' V'' @ nl,
           ''# Fill Factor = '' @ fmt_f env 3 (fillFactor s) @ '' '' @ nl,
           ''# Efficiency = '' @ fmt_f env 3 (efficiency s) @ nl,
           ''# Voltage'' @ tab @ ''Current'' @ nl] @
          map (\<lambda>j. fmt_f env 5 (voltage s ! j) @ tab @ fmt_g env 5 (current s ! j) @ nl)
            [0..<N s]) @
       [FileClose, SetText SaveButton ''Data Saved'', SetDisabled SaveButton True]"
  using save_clicked_ok[OF assms] by (simp add: emits_fields file_header_def)

theorem save_writes_file_witness:
  "open_w bench ''iv.txt'' \<and>
   length (voltage export_example) = N export_example \<and>
   length (current export_example) = N export_example \<and>
   (\<exists>s'. save_clicked bench ''iv.txt'' export_example = Done s' \<and>
      file_writes (log s') =
        [''# Area = 2.76000 (units?)'' @ nl,
         ''# Flux = 100.00000 (units?)'' @ nl,
         ''# Max Current = 0.01000 mA'' @ nl,
         ''# Max Voltage = 1.00000 V'' @ nl,
         ''# Fill Factor = 0.300 '' @ nl,
         ''# Efficiency = 0.000'' @ nl,
         ''# Voltage'' @ tab @ ''Current'' @ nl,
         ''0.00000'' @ tab @ ''0.01'' @ nl,
         ''0.50000'' @ tab @ ''0.006'' @ nl,
         ''1.00000'' @ tab @ ''0'' @ nl])"
proof -
  have h1: "open_w bench ''iv.txt''" by code_simp
  have h2: "length (voltage export_example) = N export_example" by code_simp
  have h3: "length (current export_example) = N export_example" by code_simp
  from save_writes_file[OF h1 h2 h3] obtain s' where
    d: "save_clicked bench ''iv.txt'' export_example = Done s'" by blast
  have "file_writes (log (state_of (save_clicked bench ''iv.txt'' export_example))) =
        [''# Area = 2.76000 (units?)'' @ nl,
         ''# Flux = 100.00000 (units?)'' @ nl,
         ''# Max Current = 0.01000 mA'' @ nl,
         ''# Max Voltage = 1.00000 V'' @ nl,
         ''# Fill Factor = 0.300 '' @ nl,
         ''# Efficiency = 0.000'' @ nl,
         ''# Voltage'' @ tab @ ''Current'' @ nl,
         ''0.00000'' @ tab @ ''0.01'' @ nl,
         ''0.50000'' @ tab @ ''0.006'' @ nl,
         ''1.00000'' @ tab @ ''0'' @ nl]"
    by code_simp
  with d h1 h2 h3 show ?thesis by simp
qed

text \<open>
  The claim as stated gives the column-header row as \<open>Voltage<TAB>Current\<close>. The seventh
  string written is \<open># Voltage<TAB>Current\<close>.
\<close>

theorem header_row_has_hash:
  "file_writes (log (state_of (save_clicked bench ''iv.txt'' export_example))) ! 6 =
     ''# Voltage'' @ tab @ ''Current'' @ nl \<and>
   ''# Voltage'' @ tab @ ''Current'' @ nl \<noteq> ''Voltage'' @ tab @ ''Current'' @ nl"
  by code_simp

subsection \<open>Instrument selection\<close>

text \<open>
  C6. When the selected resource opens, \<open>selectionChange\<close> sends exactly nine commands,
  in this order: beep, measurement terminal, source function voltage, sweep start
  voltage, sweep stop voltage, sweep mode, element order voltage and current, sweep
  point count \<open>N\<close>, trigger count \<open>N\<close>.
\<close>

theorem selection_commands:
  assumes "open_resource env sel"
  shows "\<exists>s'. selectionChange env sel s = Done s' \<and> SM s' = Some sel \<and>
     sent (log s') = sent (log s) @
       [''syst:beep 440'',
        ''route:term front'',
        ''source:function:mode volt'',
        ''source:volt:start '' @ fmt_f env 2 (minV s),
        ''source:volt:stop '' @ fmt_f env 2 (maxV s),
        ''source:volt:mode sweep'',
        ''format:elements voltage, current'',
        ''source:sweep:points '' @ fmt_d (N s),
        ''trig:count '' @ fmt_d (N s)]"
  using assms by (simp add: selectionChange_def emits_def sent_append)

theorem selection_commands_witness:
  "open_resource bench ''GPIB0::24::INSTR'' \<and>
   (\<exists>s'. selectionChange bench ''GPIB0::24::INSTR'' (main_program bench) = Done s' \<and>
      sent (log s') =
       [''syst:beep 440'',
        ''route:term front'',
        ''source:function:mode volt'',
        ''source:volt:start 0.00'',
        ''source:volt:stop 2.00'',
        ''source:volt:mode sweep'',
        ''format:elements voltage, current'',
        ''source:sweep:points 100'',
        ''trig:count 100''])"
proof -
  have h: "open_resource bench ''GPIB0::24::INSTR''" by code_simp
  have a: "sent (log (main_program bench)) = []" by code_simp
  have b: "fmt_f bench 2 (minV (main_program bench)) = ''0.00''" by code_simp
  have c: "fmt_f bench 2 (maxV (main_program bench)) = ''2.00''" by code_simp
  have e: "fmt_d (N (main_program bench)) = ''100''" by code_simp
  from selection_commands[OF h, of "main_program bench"] obtain s' where
    "selectionChange bench ''GPIB0::24::INSTR'' (main_program bench) = Done s'"
    "sent (log s') = sent (log (main_program bench)) @
       [''syst:beep 440'',
        ''route:term front'',
        ''source:function:mode volt'',
        ''source:volt:start '' @ fmt_f bench 2 (minV (main_program bench)),
        ''source:volt:stop '' @ fmt_f bench 2 (maxV (main_program bench)),
        ''source:volt:mode sweep'',
        ''format:elements voltage, current'',
        ''source:sweep:points '' @ fmt_d (N (main_program bench)),
        ''trig:count '' @ fmt_d (N (main_program bench))]"
    by blast
  with h show ?thesis by (simp add: a b c e)
qed

subsection \<open>Stop\<close>

text \<open>
  C10. \<open>stop_clicked\<close> changes nothing but the log: it disables the stop control,
  enables the start control and sends the single command \<open>output off\<close> (with no
  instrument selected the write raises and nothing is sent). The stored sequences, the
  sweep parameters and the derived metrics are as before. A handler runs to its end
  before the next one starts, so a stop clicked during a sweep is handled after
  \<open>start_clicked\<close> has returned: it does not cut the read short.
\<close>

theorem stop_only_output_off:
  "(\<exists>evs. state_of (stop_clicked s) = s\<lparr>log := log s @ evs\<rparr> \<and>
      evs = [SetDisabled StopButton True, SetDisabled StartButton False] @
            (case SM s of None \<Rightarrow> [] | Some r \<Rightarrow> [SMWrite ''output off'']) \<and>
      sent evs = (case SM s of None \<Rightarrow> [] | Some r \<Rightarrow> [''output off''])) \<and>
   raised (stop_clicked s) = (SM s = None) \<and>
   voltage (state_of (stop_clicked s)) = voltage s \<and>
   current (state_of (stop_clicked s)) = current s \<and>
   minV (state_of (stop_clicked s)) = minV s \<and>
   maxV (state_of (stop_clicked s)) = maxV s \<and>
   N (state_of (stop_clicked s)) = N s \<and>
   area (state_of (stop_clicked s)) = area s \<and>
   flux (state_of (stop_clicked s)) = flux s \<and>
   Imax (state_of (stop_clicked s)) = Imax s \<and>
   Imax_index (state_of (stop_clicked s)) = Imax_index s \<and>
   IVmax (state_of (stop_clicked s)) = IVmax s \<and>
   IVmax_index (state_of (stop_clicked s)) = IVmax_index s \<and>
   zero_index (state_of (stop_clicked s)) = zero_index s \<and>
   Vmax (state_of (stop_clicked s)) = Vmax s \<and>
   fillFactor (state_of (stop_clicked s)) = fillFactor s \<and>
   efficiency (state_of (stop_clicked s)) = efficiency s \<and>
   run env [StartClick reply, StopClick] s =
     state_of (stop_clicked (state_of (start_clicked env reply s)))"
  by (cases "SM s") (simp_all add: stop_clicked_def sm_write_def emits_def emit_def)

subsection \<open>What no handler touches\<close>

lemma keeps_refl: "keeps s s"
  by (simp add: keeps_def)

lemma keeps_trans: "keeps s s' \<Longrightarrow> keeps s' s'' \<Longrightarrow> keeps s s''"
  unfolding keeps_def
  by (elim conjE exE, intro conjI; (simp; fail)?) (auto simp: texts_on_append)

lemma keeps_emits:
  "texts_on FfOutput evs = [] \<Longrightarrow> texts_on EfOutput evs = [] \<Longrightarrow> keeps s (emits evs s)"
  by (simp add: keeps_def emits_def)

lemma keeps_sm_write: "keeps s (state_of (sm_write cmd s))"
  by (cases "SM s") (simp_all add: sm_write_def keeps_refl emit_emits keeps_emits)

lemma keeps_processData: "keeps s (state_of (processData env d s))"
  using processData_cases[of env d s]
  by (elim disjE exE conjE) (simp_all add: keeps_def emits_def)

lemma keeps_start_clicked: "keeps s (state_of (start_clicked env reply s))"
proof -
  let ?s1 = "emits [SetDisabled StartButton True, SetDisabled StopButton False] s"
  have k1: "keeps s ?s1" by (simp add: keeps_emits)
  show ?thesis
  proof (cases "sm_write ''output on'' ?s1")
    case (Raised e s2)
    with keeps_sm_write[of ?s1 "''output on''"] have "keeps ?s1 s2" by simp
    with k1 Raised show ?thesis by (simp add: start_clicked_def keeps_trans)
  next
    case (Done s2)
    with keeps_sm_write[of ?s1 "''output on''"] have "keeps ?s1 s2" by simp
    with k1 have k2: "keeps s s2" by (rule keeps_trans)
    let ?s3 = "emit (SMQuery ''read?'') s2"
    have "keeps s2 ?s3" by (simp add: emit_emits keeps_emits)
    with k2 have k3: "keeps s ?s3" by (rule keeps_trans)
    show ?thesis
    proof (cases reply)
      case None
      with Done k3 show ?thesis by (simp add: start_clicked_def)
    next
      case (Some d)
      show ?thesis
      proof (cases "sm_write ''output off'' ?s3")
        case (Raised e s4)
        with keeps_sm_write[of ?s3 "''output off''"] have "keeps ?s3 s4" by simp
        with k3 have "keeps s s4" by (rule keeps_trans)
        with Done Some Raised show ?thesis by (simp add: start_clicked_def)
      next
        case d4: (Done s4)
        with keeps_sm_write[of ?s3 "''output off''"] have "keeps ?s3 s4" by simp
        with k3 have k4: "keeps s s4" by (rule keeps_trans)
        have k5: "keeps s (state_of (processData env d s4))"
          by (rule keeps_trans[OF k4 keeps_processData])
        show ?thesis
        proof (cases "processData env d s4")
          case (Raised e s5)
          with k5 Done Some d4 show ?thesis by (simp add: start_clicked_def)
        next
          case d5: (Done s5)
          have "keeps s5 (emit (SetDisabled StartButton False) s5)"
            by (simp add: emit_emits keeps_emits)
          with k5 d5 have "keeps s (emit (SetDisabled StartButton False) s5)"
            by (auto intro: keeps_trans)
          with Done Some d4 d5 show ?thesis by (simp add: start_clicked_def)
        qed
      qed
    qed
  qed
qed

lemma keeps_stop_clicked: "keeps s (state_of (stop_clicked s))"
  unfolding stop_clicked_def
  by (rule keeps_trans[OF _ keeps_sm_write]) (simp add: keeps_emits)

lemma keeps_save_clicked: "keeps s (state_of (save_clicked env filename s))"
  using save_clicked_any[of env filename s] by (auto simp: keeps_emits)

lemma keeps_selectionChange: "keeps s (state_of (selectionChange env sel s))"
  by (simp add: selectionChange_def keeps_refl keeps_def emits_def)

lemma keeps_edits:
  "keeps s (state_of (areaSet env txt s))"
  "keeps s (state_of (fluxSet env txt s))"
  by (simp_all add: areaSet_def fluxSet_def keeps_def split: option.splits)

lemma keeps_minVset: "keeps s (state_of (minVset env txt s))"
proof (cases "float_of env txt")
  case None
  then show ?thesis by (simp add: minVset_def keeps_refl)
next
  case (Some x)
  have "keeps s (s\<lparr>minV := x\<rparr>)" by (simp add: keeps_def)
  from keeps_trans[OF this keeps_sm_write] Some show ?thesis by (simp add: minVset_def)
qed

lemma keeps_maxVset: "keeps s (state_of (maxVset env txt s))"
proof (cases "float_of env txt")
  case None
  then show ?thesis by (simp add: maxVset_def keeps_refl)
next
  case (Some x)
  have "keeps s (s\<lparr>maxV := x\<rparr>)" by (simp add: keeps_def)
  from keeps_trans[OF this keeps_sm_write] Some show ?thesis by (simp add: maxVset_def)
qed

lemma keeps_handle: "keeps s (state_of (handle env a s))"
  by (cases a)
    (simp_all add: keeps_selectionChange portSet_def keeps_sm_write keeps_start_clicked
      keeps_stop_clicked keeps_save_clicked keeps_edits keeps_minVset keeps_maxVset)

lemma keeps_run: "keeps s (run env acts s)"
proof (induction acts arbitrary: s)
  case Nil
  show ?case by (simp add: keeps_refl)
next
  case (Cons a acts)
  from keeps_trans[OF keeps_handle Cons.IH] show ?case by simp
qed

lemma main_program_facts:
  "metrics_initial (main_program env)"
  "N (main_program env) = 100"
  "length (voltage (main_program env)) = 100"
  "length (current (main_program env)) = 100"
  "texts_on FfOutput (log (main_program env)) = [''Fill Factor: '' @ fmt_f env 2 f_0_0 @ ''  '']"
  "texts_on EfOutput (log (main_program env)) = [''Efficiency: '' @ fmt_f env 2 f_0_0 @ '' '']"
  by (simp_all add: main_program_def updateOutput_def emits_def globals0_def metrics_initial_def)

lemma run_facts:
  "metrics_initial (run env acts (main_program env))"
  "N (run env acts (main_program env)) = 100"
  "length (voltage (run env acts (main_program env))) = 100"
  "length (current (run env acts (main_program env))) = 100"
  "texts_on FfOutput (log (run env acts (main_program env))) =
     [''Fill Factor: '' @ fmt_f env 2 f_0_0 @ ''  '']"
  "texts_on EfOutput (log (run env acts (main_program env))) =
     [''Efficiency: '' @ fmt_f env 2 f_0_0 @ '' '']"
  using keeps_run[of "main_program env" env acts] main_program_facts[of env]
  by (auto simp: keeps_def metrics_initial_def texts_on_append)

lemma selected_eq:
  "selected = state_of (selectionChange bench ''GPIB0::24::INSTR'' (main_program bench))"
  by (simp add: selected_def)

lemma selected_facts:
  "SM selected = Some ''GPIB0::24::INSTR''"
  "N selected = 100"
  "area selected = f_2_76"
  "flux selected = f_100_0"
  by (simp_all add: selected_eq selectionChange_def bench_def emits_def main_program_def
      updateOutput_def globals0_def)

lemma sweep_second_pair:
  "float_of bench (split_on CHR '','' sweep_reply ! 2) = Some f_0_5"
  "float_of bench (split_on CHR '','' sweep_reply ! 3) = Some f_0_006"
  unfolding sweep_fields by code_simp+

text \<open>
  C9. After the main program and any sequence of selections, port choices, sweeps
  (whatever the instrument replies), stops, saves and edits of area, flux, start and
  stop voltage, the eight derived metrics hold \<open>0.0\<close> or \<open>0\<close>, the values of their
  module-level assignments. The only text ever set on the two output labels is the one
  \<open>updateOutput\<close> wrote at start-up from these zeros, and a save from such a state
  writes the four metric lines of the header from the zeros as well.
\<close>

theorem metrics_never_assigned:
  "(let s = run env acts (main_program env) in
     Imax s = f_0_0 \<and> Imax_index s = 0 \<and> IVmax s = f_0_0 \<and> IVmax_index s = 0 \<and>
     zero_index s = 0 \<and> Vmax s = f_0_0 \<and> fillFactor s = f_0_0 \<and> efficiency s = f_0_0 \<and>
     texts_on FfOutput (log s) = [''Fill Factor: '' @ fmt_f env 2 f_0_0 @ ''  ''] \<and>
     texts_on EfOutput (log s) = [''Efficiency: '' @ fmt_f env 2 f_0_0 @ '' ''] \<and>
     save_clicked env filename s =
       (if open_w env filename
        then Done (emits
          ([FileOpen filename] @
           map FileWrite
             ([''# Area = '' @ fmt_f env 5 (area s) @ '' (units?)'' @ nl,
               ''# Flux = '' @ fmt_f env 5 (flux s) @ '' (units?)'' @ nl,
               ''# Max Current = '' @ fmt_f env 5 f_0_0 @ '' mA'' @ nl,
               ''# Max Voltage = '' @ fmt_f env 5 f_0_0 @ '' V'' @ nl,
               ''# Fill Factor = '' @ fmt_f env 3 f_0_0 @ '' '' @ nl,
               ''# Efficiency = '' @ fmt_f env 3 f_0_0 @ nl,
               ''# Voltage'' @ tab @ ''Current'' @ nl] @
              map (\<lambda>j. fmt_f env 5 (voltage s ! j) @ tab @ fmt_g env 5 (current s ! j) @ nl)
                [0..<100]) @
           [FileClose, SetText SaveButton ''Data Saved'', SetDisabled SaveButton True]) s)
        else Raised OSError s))"
proof -
  let ?s = "run env acts (main_program env)"
  note f = run_facts[of env acts]
  from f(1) have m: "Imax ?s = f_0_0" "Imax_index ?s = 0" "IVmax ?s = f_0_0"
    "IVmax_index ?s = 0" "zero_index ?s = 0" "Vmax ?s = f_0_0" "fillFactor ?s = f_0_0"
    "efficiency ?s = f_0_0"
    by (simp_all add: metrics_initial_def)
  have "save_clicked env filename ?s = Raised OSError ?s" if "\<not> open_w env filename"
    using that by (simp add: save_clicked_def)
  moreover have "save_clicked env filename ?s =
      Done (emits
          ([FileOpen filename] @
           map FileWrite
             ([''# Area = '' @ fmt_f env 5 (area ?s) @ '' (units?)'' @ nl,
               ''# Flux = '' @ fmt_f env 5 (flux ?s) @ '' (units?)'' @ nl,
               ''# Max Current = '' @ fmt_f env 5 f_0_0 @ '' mA'' @ nl,
               ''# Max Voltage = '' @ fmt_f env 5 f_0_0 @ '' V'' @ nl,
               ''# Fill Factor = '' @ fmt_f env 3 f_0_0 @ '' '' @ nl,
               ''# Efficiency = '' @ fmt_f env 3 f_0_0 @ nl,
               ''# Voltage'' @ tab @ ''Current'' @ nl] @
              map (\<lambda>j. fmt_f env 5 (voltage ?s ! j) @ tab @ fmt_g env 5 (current ?s ! j) @ nl)
                [0..<100]) @
           [FileClose, SetText SaveButton ''Data Saved'', SetDisabled SaveButton True]) ?s)"
    if o: "open_w env filename"
  proof -
    have l: "length (voltage ?s) = N ?s" "length (current ?s) = N ?s" using f by simp_all
    from save_clicked_ok[OF o l] show ?thesis by (simp add: file_header_def m f(2))
  qed
  ultimately show ?thesis using m f(5,6) by (simp add: Let_def)
qed

subsection \<open>A sweep\<close>

text \<open>
  C7. With an instrument selected and a reply that holds all \<open>N\<close> pairs,
  \<open>start_clicked\<close> does exactly this, in this order: it disables the start control
  (and enables the stop control), sends \<open>output on\<close>, issues the one query
  \<open>read?\<close>, sends \<open>output off\<close>, processes the data (the two sequences are
  replaced, the plot is redrawn, the save control enabled), and enables the start
  control again. Whatever the reply, the first thing a sweep does is to disable the
  start control, and nothing enables it again before the handler's last step: a sweep
  that raises leaves it disabled.
\<close>

theorem sweep_sequence:
  assumes sm: "SM s = Some r"
    and len: "2 * N s \<le> length (split_on CHR '','' d)"
    and num: "list_all (numeric env) (take (2 * N s) (split_on CHR '','' d))"
  shows "(\<exists>s' vs cs. start_clicked env (Some d) s = Done s' \<and>
      log s' = log s @
        [SetDisabled StartButton True,
         SetDisabled StopButton False,
         SMWrite ''output on'',
         SMQuery ''read?'',
         SMWrite ''output off'',
         AxesCla,
         AxesPlot vs (map (\<lambda>c. fmul env c f_1000) cs) ''r.'',
         SetXLabel ''Voltage (V)'',
         SetYLabel ''Current (mA)'',
         Draw,
         SetDisabled SaveButton False,
         SetDisabled StartButton False] \<and>
      voltage s' = vs \<and> current s' = cs \<and> length vs = N s \<and> length cs = N s \<and>
      (\<forall>j<N s. float_of env (split_on CHR '','' d ! (2 * j)) = Some (vs ! j) \<and>
                float_of env (split_on CHR '','' d ! (2 * j + 1)) = Some (cs ! j))) \<and>
    (\<forall>reply. \<exists>evs.
       log (state_of (start_clicked env reply s)) = log s @ SetDisabled StartButton True # evs \<and>
       toggles_of StartButton (butlast evs) = [] \<and>
       (if raised (start_clicked env reply s) then toggles_of StartButton evs = []
        else last evs = SetDisabled StartButton False))"
proof
  let ?s4 = "emits [SetDisabled StartButton True, SetDisabled StopButton False,
      SMWrite ''output on'', SMQuery ''read?'', SMWrite ''output off''] s"
  have n4: "N ?s4 = N s" by (simp add: emits_fields)
  from len num obtain s5 where d5: "processData env d ?s4 = Done s5"
    using processData_Done_iff[of env d ?s4] by (auto simp: n4)
  note p = processData_Done_nth[OF d5, unfolded n4]
  from processData_cases[of env d ?s4] d5 obtain vs cs where
    s5: "s5 = emits [AxesCla, AxesPlot vs (map (\<lambda>c. fmul env c f_1000) cs) ''r.'',
        SetXLabel ''Voltage (V)'', SetYLabel ''Current (mA)'', Draw,
        SetDisabled SaveButton False] (?s4\<lparr>voltage := vs, current := cs\<rparr>)"
    by auto
  have st: "start_clicked env (Some d) s = Done (emit (SetDisabled StartButton False) s5)"
    using sm d5 by (simp add: start_clicked_def sm_write_def emits_def emit_def)
  have v: "voltage s5 = vs" "current s5 = cs" using s5 by (simp_all add: emits_def)
  show "\<exists>s' vs cs. start_clicked env (Some d) s = Done s' \<and>
      log s' = log s @
        [SetDisabled StartButton True,
         SetDisabled StopButton False,
         SMWrite ''output on'',
         SMQuery ''read?'',
         SMWrite ''output off'',
         AxesCla,
         AxesPlot vs (map (\<lambda>c. fmul env c f_1000) cs) ''r.'',
         SetXLabel ''Voltage (V)'',
         SetYLabel ''Current (mA)'',
         Draw,
         SetDisabled SaveButton False,
         SetDisabled StartButton False] \<and>
      voltage s' = vs \<and> current s' = cs \<and> length vs = N s \<and> length cs = N s \<and>
      (\<forall>j<N s. float_of env (split_on CHR '','' d ! (2 * j)) = Some (vs ! j) \<and>
                float_of env (split_on CHR '','' d ! (2 * j + 1)) = Some (cs ! j))"
    apply (rule exI[of _ "emit (SetDisabled StartButton False) s5"])
    apply (rule exI[of _ vs])
    apply (rule exI[of _ cs])
    using st p v s5 by (simp add: emit_def emits_def)
next
  show "\<forall>reply. \<exists>evs.
       log (state_of (start_clicked env reply s)) = log s @ SetDisabled StartButton True # evs \<and>
       toggles_of StartButton (butlast evs) = [] \<and>
       (if raised (start_clicked env reply s) then toggles_of StartButton evs = []
        else last evs = SetDisabled StartButton False)"
  proof
    fix reply
    show "\<exists>evs.
       log (state_of (start_clicked env reply s)) = log s @ SetDisabled StartButton True # evs \<and>
       toggles_of StartButton (butlast evs) = [] \<and>
       (if raised (start_clicked env reply s) then toggles_of StartButton evs = []
        else last evs = SetDisabled StartButton False)"
    proof (cases reply)
      case None
      then show ?thesis using sm
        by (simp add: start_clicked_def sm_write_def emits_def emit_def)
    next
      case (Some d')
      let ?s4 = "emits [SetDisabled StartButton True, SetDisabled StopButton False,
        SMWrite ''output on'', SMQuery ''read?'', SMWrite ''output off''] s"
      have st: "start_clicked env reply s =
          and_then (processData env d' ?s4) (\<lambda>s5. Done (emit (SetDisabled StartButton False) s5))"
        using sm Some by (simp add: start_clicked_def sm_write_def emits_def emit_def)
      from processData_cases[of env d' ?s4] show ?thesis
        by (elim disjE exE conjE) (simp_all add: st emits_def emit_def)
    qed
  qed
qed

theorem sweep_sequence_witness:
  "SM selected = Some ''GPIB0::24::INSTR'' \<and>
   2 * N selected \<le> length (split_on CHR '','' sweep_reply) \<and>
   list_all (numeric bench) (take (2 * N selected) (split_on CHR '','' sweep_reply)) \<and>
   (\<exists>s'. start_clicked bench (Some sweep_reply) selected = Done s' \<and>
      sent (drop (length (log selected)) (log s')) = [''output on'', ''read?'', ''output off''] \<and>
      toggles_of StartButton (drop (length (log selected)) (log s')) = [True, False] \<and>
      length (voltage s') = 100 \<and> length (current s') = 100 \<and>
      voltage s' ! 1 = f_0_5 \<and> current s' ! 1 = f_0_006)"
proof -
  have h2: "2 * N selected \<le> length (split_on CHR '','' sweep_reply)"
    by (simp add: selected_facts sweep_length)
  have h3: "list_all (numeric bench) (take (2 * N selected) (split_on CHR '','' sweep_reply))"
    by (simp add: selected_facts sweep_numeric)
  from sweep_sequence[OF selected_facts(1) h2 h3] obtain s' vs cs where
    d: "start_clicked bench (Some sweep_reply) selected = Done s'" and
    l: "log s' = log selected @
        [SetDisabled StartButton True,
         SetDisabled StopButton False,
         SMWrite ''output on'',
         SMQuery ''read?'',
         SMWrite ''output off'',
         AxesCla,
         AxesPlot vs (map (\<lambda>c. fmul bench c f_1000) cs) ''r.'',
         SetXLabel ''Voltage (V)'',
         SetYLabel ''Current (mA)'',
         Draw,
         SetDisabled SaveButton False,
         SetDisabled StartButton False]" and
    v: "voltage s' = vs" "current s' = cs" "length vs = N selected" "length cs = N selected" and
    a: "\<forall>j<N selected.
          float_of bench (split_on CHR '','' sweep_reply ! (2 * j)) = Some (vs ! j) \<and>
          float_of bench (split_on CHR '','' sweep_reply ! (2 * j + 1)) = Some (cs ! j)"
    by blast
  from a[rule_format, of 1] have "vs ! 1 = f_0_5" "cs ! 1 = f_0_006"
    by (simp_all add: selected_facts sweep_second_pair)
  with d l v h2 h3 show ?thesis by (simp add: selected_facts)
qed

subsection \<open>The derived metrics after a sweep\<close>

lemma after_sweep_eq: "after_sweep = state_of (start_clicked bench (Some sweep_reply) selected)"
  by (simp add: after_sweep_def)

lemma after_sweep_run:
  "after_sweep =
     run bench [Select ''GPIB0::24::INSTR'', StartClick (Some sweep_reply)] (main_program bench)"
  by (simp add: after_sweep_def selected_def)

text \<open>
  C1. The state after the main program, the selection of the instrument and a sweep that
  returned the specification's example, continued to \<open>N = 100\<close> points. For these data,
  area 2.76 and flux 100.0 the formulas give max current 0.010, zero-crossing voltage
  1.0, max power 0.003, fill factor 0.3 and efficiency 0.0000828. \<open>processData\<close> has
  stored the two sequences and left every metric at zero.
\<close>

theorem sweep_leaves_metrics:
  "voltage after_sweep = f_0_0 # f_0_5 # replicate 98 f_1_0 \<and>
   current after_sweep = f_0_01 # f_0_006 # replicate 98 f_0_0 \<and>
   area after_sweep = f_2_76 \<and> flux after_sweep = f_100_0 \<and>
   Imax after_sweep = f_0_0 \<and> Imax_index after_sweep = 0 \<and>
   IVmax after_sweep = f_0_0 \<and> IVmax_index after_sweep = 0 \<and>
   zero_index after_sweep = 0 \<and> Vmax after_sweep = f_0_0 \<and>
   fillFactor after_sweep = f_0_0 \<and> efficiency after_sweep = f_0_0 \<and>
   f_0_0 \<noteq> f_0_01 \<and> f_0_0 \<noteq> f_0_003 \<and> f_0_0 \<noteq> f_1_0 \<and> f_0_0 \<noteq> f_0_3 \<and>
   f_0_0 \<noteq> f_0_0000828"
proof -
  let ?s4 = "emits [SetDisabled StartButton True, SetDisabled StopButton False,
      SMWrite ''output on'', SMQuery ''read?'', SMWrite ''output off''] selected"
  have n4: "N ?s4 = 100" by (simp add: emits_fields selected_facts)
  have st: "start_clicked bench (Some sweep_reply) selected =
      and_then (processData bench sweep_reply ?s4)
        (\<lambda>s5. Done (emit (SetDisabled StartButton False) s5))"
    by (simp add: start_clicked_def sm_write_def emits_def emit_def selected_facts)
  note pd = processData_sweep_reply[OF n4]
  have as: "after_sweep = emit (SetDisabled StartButton False)
      (emits
        [AxesCla,
         AxesPlot (f_0_0 # f_0_5 # replicate 98 f_1_0)
           (map (\<lambda>c. fmul bench c f_1000) (f_0_01 # f_0_006 # replicate 98 f_0_0)) ''r.'',
         SetXLabel ''Voltage (V)'',
         SetYLabel ''Current (mA)'',
         Draw,
         SetDisabled SaveButton False]
        (?s4\<lparr>voltage := f_0_0 # f_0_5 # replicate 98 f_1_0,
            current := f_0_01 # f_0_006 # replicate 98 f_0_0\<rparr>))"
    by (simp only: after_sweep_eq st pd and_then.simps state_of.simps)
  have arr: "voltage after_sweep = f_0_0 # f_0_5 # replicate 98 f_1_0"
    "current after_sweep = f_0_01 # f_0_006 # replicate 98 f_0_0"
    "area after_sweep = f_2_76" "flux after_sweep = f_100_0"
    by (simp_all add: as emits_def emit_def selected_facts)
  from run_facts(1)[of bench "[Select ''GPIB0::24::INSTR'', StartClick (Some sweep_reply)]"]
  have m: "metrics_initial after_sweep" by (simp only: after_sweep_run)
  have ne: "f_0_0 \<noteq> f_0_01" "f_0_0 \<noteq> f_0_003" "f_0_0 \<noteq> f_1_0" "f_0_0 \<noteq> f_0_3"
    "f_0_0 \<noteq> f_0_0000828"
    by code_simp+
  from arr m ne show ?thesis by (simp add: metrics_initial_def)
qed

end
